theory Spec2Isabelle
  imports Main "HOL-Library.AList" "HOL-Library.Sublist"
begin

section \<open>Go library functions used by the checker\<close>

text \<open>
  The checker of \<^verbatim>\<open>pkg/helpers/helpers.go\<close> is written against the Go standard library:
  \<^verbatim>\<open>strings\<close>, \<^verbatim>\<open>path/filepath\<close>, \<^verbatim>\<open>go/ast\<close>, \<^verbatim>\<open>go/parser\<close> and \<^verbatim>\<open>fmt\<close>.  This section models the
  library functions it calls, after their documentation.  Strings are byte lists.
\<close>

subsection \<open>Package strings\<close>

definition HasPrefix :: "string \<Rightarrow> string \<Rightarrow> bool" where
  "HasPrefix s p = (length p \<le> length s \<and> take (length p) s = p)"

definition HasSuffix :: "string \<Rightarrow> string \<Rightarrow> bool" where
  "HasSuffix s suf = (length suf \<le> length s \<and> drop (length s - length suf) s = suf)"

text \<open>\<^verbatim>\<open>strings.Trim(s, `"`)\<close>: all leading and trailing double quotes (byte 0x22) removed.\<close>

definition Trim :: "string \<Rightarrow> string" where
  "Trim s = rev (dropWhile (\<lambda>c. c = CHR 0x22) (rev (dropWhile (\<lambda>c. c = CHR 0x22) s)))"

text \<open>\<^verbatim>\<open>strings.Split(s, "/")\<close>: the pieces between the separators; never an empty list.\<close>

fun Split :: "string \<Rightarrow> string list" where
  "Split [] = [[]]"
| "Split (c # cs) =
     (if c = CHR ''/'' then [] # Split cs
      else (case Split cs of [] \<Rightarrow> [[c]] | p # ps \<Rightarrow> (c # p) # ps))"

text \<open>\<^verbatim>\<open>parts[len(parts)-1]\<close> of \<^verbatim>\<open>strings.Split(path, "/")\<close>.\<close>

definition lastPart :: "string \<Rightarrow> string" where
  "lastPart p = last (Split p)"

subsection \<open>Package fmt\<close>

text \<open>The verb \<^verbatim>\<open>%d\<close> on a line number: its decimal digits.\<close>

definition digit :: "nat \<Rightarrow> char" where
  "digit d = ''0123456789'' ! d"

function Itoa :: "nat \<Rightarrow> string" where
  "Itoa n = (if n < 10 then [digit n] else Itoa (n div 10) @ [digit (n mod 10)])"
  by pat_completeness auto
termination
  by (relation "measure id") auto

declare Itoa.simps [simp del]

subsection \<open>Package path/filepath: Ext and Join\<close>

text \<open>
  \<^verbatim>\<open>filepath.Ext\<close>: the suffix beginning at the final dot of the final element of the path,
  empty when that element has no dot.
\<close>

definition Ext :: "string \<Rightarrow> string" where
  "Ext path =
     (let r = takeWhile (\<lambda>c. c \<noteq> CHR ''/'') (rev path)
      in if CHR ''.'' \<in> set r then rev (takeWhile (\<lambda>c. c \<noteq> CHR ''.'') r @ ''.'') else [])"

text \<open>
  \<^verbatim>\<open>filepath.Join(dir, name)\<close> for a clean directory path and a plain entry name
  (the only way \<^verbatim>\<open>filepath.Walk\<close> calls it below a clean root).
\<close>

definition Join :: "string \<Rightarrow> string \<Rightarrow> string" where
  "Join dir name = dir @ ''/'' @ name"

subsection \<open>Package go/ast: syntax trees and Inspect\<close>

text \<open>
  One datatype for \<^verbatim>\<open>ast.Node\<close>: the node types the checker's type assertions name, with the
  fields it reads, and \<open>Other\<close> for every other node, which keeps only its children.
  A position is kept as the line \<^verbatim>\<open>fileSet.Position(pos).Line\<close> gives.
  \<^item> \<open>Ident name\<close>
  \<^item> \<open>SelectorExpr X Sel\<close>: \<^verbatim>\<open>X.Sel\<close>
  \<^item> \<open>CompositeLit Type Elts line\<close>: \<^verbatim>\<open>Type{Elts}\<close>; \<open>Type\<close> is \<open>None\<close> when elided; \<open>line\<close> of \<^verbatim>\<open>Pos()\<close>
  \<^item> \<open>AssignStmt Lhs Rhs\<close>, \<open>ReturnStmt Results\<close>
  \<^item> \<open>StructType Fields\<close>: \<open>None\<close> for a nil field list, else the list of its \<open>Field\<close>s
  \<^item> \<open>Field Names Type\<close>
  \<^item> \<open>TypeSpec Name Type\<close>
  \<^item> \<open>FuncDecl Name Params Results Body start end\<close>: \<open>Name\<close> may be nil; \<open>Params\<close> are the flds
    of the receiver and the parameters; \<open>Results\<close> is \<^verbatim>\<open>Type.Results\<close>, \<open>None\<close> when nil;
    \<open>start\<close> and \<open>end\<close> are the lines of \<^verbatim>\<open>Pos()\<close> and \<^verbatim>\<open>End()\<close>.
\<close>

datatype node =
    Ident string
  | SelectorExpr node string
  | CompositeLit "node option" "node list" nat
  | AssignStmt "node list" "node list"
  | ReturnStmt "node list"
  | StructType "node list option"
  | Field "string list" node
  | TypeSpec string node
  | FuncDecl "string option" "node list" "node list option" "node list" nat nat
  | Other "node list"

text \<open>The non-nil children of a node, in the order \<^verbatim>\<open>ast.Walk\<close> visits them.\<close>

fun children :: "node \<Rightarrow> node list" where
  "children (Ident _) = []"
| "children (SelectorExpr x _) = [x]"
| "children (CompositeLit ty elts _) = (case ty of None \<Rightarrow> [] | Some t \<Rightarrow> [t]) @ elts"
| "children (AssignStmt lhs rhs) = lhs @ rhs"
| "children (ReturnStmt results) = results"
| "children (StructType flds) = (case flds of None \<Rightarrow> [] | Some fl \<Rightarrow> fl)"
| "children (Field _ ty) = [ty]"
| "children (TypeSpec _ ty) = [ty]"
| "children (FuncDecl _ params results body _ _) =
     params @ (case results of None \<Rightarrow> [] | Some fl \<Rightarrow> fl) @ body"
| "children (Other cs) = cs"

lemma size_children: "c \<in> set (children n) \<Longrightarrow> size c < size n"
  by (cases n) (auto split: option.splits dest!: size_list_estimation' [where f = size and y = "size c"] simp: less_Suc_eq_le)

text \<open>
  \<^verbatim>\<open>ast.Inspect(node, f)\<close>: depth-first; \<open>f\<close> is called on the node; when it returns true,
  Inspect goes through the children and then calls \<open>f(nil)\<close>.  The state the closure \<open>f\<close>
  updates is passed along.
\<close>

function Inspect :: "node \<Rightarrow> (node option \<Rightarrow> 's \<Rightarrow> bool \<times> 's) \<Rightarrow> 's \<Rightarrow> 's" where
  "Inspect n f s =
     (case f (Some n) s of
        (False, s') \<Rightarrow> s'
      | (True, s') \<Rightarrow> snd (f None (fold (\<lambda>c. Inspect c f) (children n) s')))"
  by pat_completeness auto
termination
  by (relation "measure (\<lambda>(n, f, s). size n)") (auto simp: size_children)

declare Inspect.simps [simp del]

text \<open>An \<^verbatim>\<open>*ast.ImportSpec\<close>: the alias (nil when absent) and \<^verbatim>\<open>Path.Value\<close>, the literal with its quotes.\<close>

record ImportSpec =
  ImportName :: "string option"
  ImportPath :: string

text \<open>An \<^verbatim>\<open>*ast.File\<close>: \<^verbatim>\<open>Name.Name\<close>, \<^verbatim>\<open>Imports\<close> and \<^verbatim>\<open>Decls\<close>.\<close>

record ast_File =
  PkgName :: string
  Imports :: "ImportSpec list"
  Decls :: "node list"

text \<open>
  The file as the root node handed to \<^verbatim>\<open>ast.Inspect\<close>: no type assertion of the checker
  matches \<^verbatim>\<open>*ast.File\<close>, and its children are the declarations.
\<close>

definition fileNode :: "ast_File \<Rightarrow> node" where
  "fileNode file = Other (Decls file)"

subsection \<open>The file tree, parser.ParseFile and filepath.Walk\<close>

text \<open>
  What the checker reads of the world: the file tree below the root path.  An entry is one on
  which \<^verbatim>\<open>os.Lstat\<close> fails, a file that is not a directory, with what \<^verbatim>\<open>parser.ParseFile\<close>
  makes of it (\<open>None\<close> when it cannot be read or parsed), or a directory, with the names
  \<^verbatim>\<open>readDirNames\<close> lists, in its order (\<open>None\<close> when the directory cannot be read).
\<close>

datatype entry =
    LstatFails
  | RegularFile "ast_File option"
  | Directory "(string \<times> entry) list option"

datatype error = SkipDir | SkipAll | LstatError | ReadDirError | Pin error

text \<open>\<^verbatim>\<open>parser.ParseFile(fileSet, path, nil, parser.ParseComments)\<close>; a directory cannot be read as a file.\<close>

fun ParseFile :: "entry \<Rightarrow> ast_File option" where
  "ParseFile (RegularFile r) = r"
| "ParseFile _ = None"

fun IsDir :: "entry \<Rightarrow> bool" where
  "IsDir (Directory _) = True"
| "IsDir _ = False"

type_synonym 's WalkFunc = "string \<Rightarrow> entry \<Rightarrow> error option \<Rightarrow> 's \<Rightarrow> error option \<times> 's"

text \<open>
  \<^verbatim>\<open>filepath.walk\<close>: the function is called on the entry, for a directory with the error of
  listing it; a directory is left when listing failed or the function returned an error;
  each name is joined to the path; an entry whose \<^verbatim>\<open>Lstat\<close> fails is handed to the function
  with that error; an error other than \<^verbatim>\<open>SkipDir\<close> on a directory stops the walk.
  (\<^verbatim>\<open>walk\<close> itself is only called on an entry whose \<^verbatim>\<open>Lstat\<close> succeeded; its equation for
  \<open>LstatFails\<close> makes the function total.)
\<close>

fun walk :: "string \<Rightarrow> entry \<Rightarrow> 's WalkFunc \<Rightarrow> 's \<Rightarrow> error option \<times> 's"
  and walkNames :: "string \<Rightarrow> (string \<times> entry) list \<Rightarrow> 's WalkFunc \<Rightarrow> 's \<Rightarrow> error option \<times> 's"
where
  "walk path (RegularFile r) fn s = fn path (RegularFile r) None s"
| "walk path (Directory None) fn s = fn path (Directory None) (Some ReadDirError) s"
| "walk path (Directory (Some names)) fn s =
     (case fn path (Directory (Some names)) None s of
        (Some err1, s1) \<Rightarrow> (Some err1, s1)
      | (None, s1) \<Rightarrow> walkNames path names fn s1)"
| "walk path LstatFails fn s = fn path LstatFails (Some LstatError) s"
| "walkNames path [] fn s = (None, s)"
| "walkNames path ((name, LstatFails) # rest) fn s =
     (case fn (Join path name) LstatFails (Some LstatError) s of
        (Some err, s1) \<Rightarrow> if err \<noteq> SkipDir then (Some err, s1) else walkNames path rest fn s1
      | (None, s1) \<Rightarrow> walkNames path rest fn s1)"
| "walkNames path ((name, RegularFile r) # rest) fn s =
     (case walk (Join path name) (RegularFile r) fn s of
        (Some err, s1) \<Rightarrow>
          if \<not> IsDir (RegularFile r) \<or> err \<noteq> SkipDir then (Some err, s1)
          else walkNames path rest fn s1
      | (None, s1) \<Rightarrow> walkNames path rest fn s1)"
| "walkNames path ((name, Directory d) # rest) fn s =
     (case walk (Join path name) (Directory d) fn s of
        (Some err, s1) \<Rightarrow>
          if \<not> IsDir (Directory d) \<or> err \<noteq> SkipDir then (Some err, s1)
          else walkNames path rest fn s1
      | (None, s1) \<Rightarrow> walkNames path rest fn s1)"

text \<open>
  \<^verbatim>\<open>filepath.Walk(root, fn)\<close> on the tree \<open>fs\<close> found at \<open>root\<close>: when \<^verbatim>\<open>os.Lstat(root)\<close> fails the
  function is called once with the error; \<^verbatim>\<open>SkipDir\<close> and \<^verbatim>\<open>SkipAll\<close> end the walk with nil.
\<close>

definition Walk :: "entry \<Rightarrow> string \<Rightarrow> 's WalkFunc \<Rightarrow> 's \<Rightarrow> error option \<times> 's" where
  "Walk fs root fn s =
     (case (case fs of LstatFails \<Rightarrow> fn root LstatFails (Some LstatError) s
                     | _ \<Rightarrow> walk root fs fn s) of
        (Some err, s1) \<Rightarrow> if err = SkipDir \<or> err = SkipAll then (None, s1) else (Some err, s1)
      | (None, s1) \<Rightarrow> (None, s1))"

section \<open>The checker of pkg/helpers/helpers.go\<close>

text \<open>
  Go maps become: a set of strings for \<^verbatim>\<open>map[string]bool\<close> (only \<^verbatim>\<open>true\<close> is ever stored, and a
  missing key reads \<^verbatim>\<open>false\<close>), and an association list with distinct keys, updated with
  \<^const>\<open>AList.update\<close>, for \<^verbatim>\<open>map[string]*ConstructorInfo\<close>.  A function that walks the tree
  takes the tree as its first argument.
\<close>

subsection \<open>GetPackageAlias and IsSomeObjectTypeDeclaration\<close>

fun GetPackageAlias_loop :: "ImportSpec list \<Rightarrow> string \<Rightarrow> string" where
  "GetPackageAlias_loop [] fullPackagePath = []"
| "GetPackageAlias_loop (imp # imps) fullPackagePath =
     (if Trim (ImportPath imp) = fullPackagePath
      then (case ImportName imp of Some name \<Rightarrow> name | None \<Rightarrow> lastPart fullPackagePath)
      else GetPackageAlias_loop imps fullPackagePath)"

definition GetPackageAlias :: "ast_File \<Rightarrow> string \<Rightarrow> string" where
  "GetPackageAlias file fullPackagePath = GetPackageAlias_loop (Imports file) fullPackagePath"

text \<open>The test in the body of the loop over \<^verbatim>\<open>structType.Fields.List\<close>.\<close>

fun isMarker :: "node \<Rightarrow> string \<Rightarrow> string \<Rightarrow> string \<Rightarrow> bool" where
  "isMarker (Field names (SelectorExpr (Ident x) sel)) markerField pkgAlias declaredName =
     (length names = 1 \<and> hd names = markerField \<and> x = pkgAlias \<and> sel = declaredName)"
| "isMarker _ markerField pkgAlias declaredName = False"

fun IsSomeObjectTypeDeclaration_loop :: "node list \<Rightarrow> string \<Rightarrow> string \<Rightarrow> string \<Rightarrow> bool" where
  "IsSomeObjectTypeDeclaration_loop [] markerField pkgAlias declaredName = False"
| "IsSomeObjectTypeDeclaration_loop (field # flds) markerField pkgAlias declaredName =
     (if isMarker field markerField pkgAlias declaredName then True
      else IsSomeObjectTypeDeclaration_loop flds markerField pkgAlias declaredName)"

text \<open>The struct type is given by its \<^verbatim>\<open>Fields\<close>, as in \<^const>\<open>StructType\<close>.\<close>

definition IsSomeObjectTypeDeclaration ::
  "ast_File \<Rightarrow> node list option \<Rightarrow> string \<Rightarrow> string \<Rightarrow> string \<Rightarrow> bool" where
  "IsSomeObjectTypeDeclaration file flds fullPackage markerField declaredName =
     (case flds of
        None \<Rightarrow> False
      | Some fl \<Rightarrow>
          (let pkgAlias = GetPackageAlias file fullPackage
           in if pkgAlias = [] then False
              else IsSomeObjectTypeDeclaration_loop fl markerField pkgAlias declaredName))"

type_synonym IsTypeDeclaration = "ast_File \<Rightarrow> node list option \<Rightarrow> bool"

subsection \<open>FindTypeDeclarations\<close>

definition FindTypeDeclarations_inspectFn ::
  "ast_File \<Rightarrow> IsTypeDeclaration \<Rightarrow> node option \<Rightarrow> string set \<Rightarrow> bool \<times> string set" where
  "FindTypeDeclarations_inspectFn file isTypeDeclaration n typeDeclarations =
     (case n of
        Some (TypeSpec name (StructType flds)) \<Rightarrow>
          if isTypeDeclaration file flds
          then (True, insert (PkgName file @ ''.'' @ name) typeDeclarations)
          else (True, typeDeclarations)
      | _ \<Rightarrow> (True, typeDeclarations))"

definition FindTypeDeclarations_walkFn :: "IsTypeDeclaration \<Rightarrow> (string set) WalkFunc" where
  "FindTypeDeclarations_walkFn isTypeDeclaration path info err typeDeclarations =
     (if err \<noteq> None \<or> Ext path \<noteq> ''.go'' then (None, typeDeclarations)
      else if HasSuffix path ''_test.go'' then (None, typeDeclarations)
      else (case ParseFile info of
              None \<Rightarrow> (None, typeDeclarations)
            | Some file \<Rightarrow>
                (None, Inspect (fileNode file)
                         (FindTypeDeclarations_inspectFn file isTypeDeclaration) typeDeclarations)))"

definition FindTypeDeclarations :: "entry \<Rightarrow> string \<Rightarrow> IsTypeDeclaration \<Rightarrow> error + string set" where
  "FindTypeDeclarations fs rootPath isTypeDeclaration =
     (case Walk fs rootPath (FindTypeDeclarations_walkFn isTypeDeclaration) {} of
        (Some err, _) \<Rightarrow> Inl (Pin err)
      | (None, typeDeclarations) \<Rightarrow> Inr typeDeclarations)"

subsection \<open>FindConstructors\<close>

record ConstructorInfo =
  File :: string
  StartLine :: nat
  EndLine :: nat

type_synonym constructors = "(string \<times> ConstructorInfo) list"

text \<open>The key of a constructor: \<^verbatim>\<open>path + ":" + funcDecl.Name.Name + ":" + typeKey\<close>.\<close>

definition constructorKey :: "string \<Rightarrow> string \<Rightarrow> string \<Rightarrow> string" where
  "constructorKey path name typeKey = path @ '':'' @ name @ '':'' @ typeKey"

definition FindConstructors_inspectFn ::
  "string \<Rightarrow> ast_File \<Rightarrow> string set \<Rightarrow> node option \<Rightarrow> constructors \<Rightarrow> bool \<times> constructors" where
  "FindConstructors_inspectFn path file typeDeclarations n constructors =
     (case n of
        Some (FuncDecl (Some name) params results body start end) \<Rightarrow>
          if \<not> HasPrefix name ''New'' then (True, constructors)
          else (case results of
                  Some (Field names (Ident ident) # rest) \<Rightarrow>
                    (let typeKey = PkgName file @ ''.'' @ ident
                     in if typeKey \<in> typeDeclarations
                        then (True, AList.update (constructorKey path name typeKey)
                                      \<lparr>File = path, StartLine = start, EndLine = end\<rparr> constructors)
                        else (True, constructors))
                | _ \<Rightarrow> (True, constructors))
      | _ \<Rightarrow> (True, constructors))"

definition FindConstructors_walkFn :: "string set \<Rightarrow> constructors WalkFunc" where
  "FindConstructors_walkFn typeDeclarations path info err constructors =
     (if err \<noteq> None \<or> Ext path \<noteq> ''.go'' then (None, constructors)
      else if HasSuffix path ''_test.go'' then (None, constructors)
      else (case ParseFile info of
              None \<Rightarrow> (None, constructors)
            | Some file \<Rightarrow>
                (None, Inspect (fileNode file)
                         (FindConstructors_inspectFn path file typeDeclarations) constructors)))"

definition FindConstructors :: "entry \<Rightarrow> string \<Rightarrow> string set \<Rightarrow> error + constructors" where
  "FindConstructors fs rootPath typeDeclarations =
     (case Walk fs rootPath (FindConstructors_walkFn typeDeclarations) [] of
        (Some err, _) \<Rightarrow> Inl (Pin err)
      | (None, constructors) \<Rightarrow> Inr constructors)"

subsection \<open>IsInsideConstructor\<close>

fun IsInsideConstructor :: "string \<Rightarrow> nat \<Rightarrow> string \<Rightarrow> constructors \<Rightarrow> bool" where
  "IsInsideConstructor file line typeDeclaration [] = False"
| "IsInsideConstructor file line typeDeclaration ((key, constructor) # rest) =
     (if HasSuffix key ('':'' @ typeDeclaration) \<and> File constructor = file
         \<and> line \<ge> StartLine constructor \<and> line \<le> EndLine constructor
      then True
      else IsInsideConstructor file line typeDeclaration rest)"

subsection \<open>FindZeroValueInitializations\<close>

text \<open>The loops over \<^verbatim>\<open>assignStmt.Rhs\<close> and \<^verbatim>\<open>returnStmt.Results\<close>: the first composite literal.\<close>

fun firstCompositeLit :: "node list \<Rightarrow> node option" where
  "firstCompositeLit [] = None"
| "firstCompositeLit (CompositeLit ty elts line # rest) = Some (CompositeLit ty elts line)"
| "firstCompositeLit (_ # rest) = firstCompositeLit rest"

text \<open>The three cases that set \<^verbatim>\<open>compLit\<close>; \<open>None\<close> is nil.\<close>

fun compLitOf :: "node option \<Rightarrow> node option" where
  "compLitOf (Some (CompositeLit ty elts line)) = Some (CompositeLit ty elts line)"
| "compLitOf (Some (AssignStmt lhs rhs)) = firstCompositeLit rhs"
| "compLitOf (Some (ReturnStmt results)) = firstCompositeLit results"
| "compLitOf _ = None"

text \<open>The loop over \<^verbatim>\<open>file.Imports\<close> that resolves the package of a selector.\<close>

fun resolvePackage :: "ImportSpec list \<Rightarrow> string \<Rightarrow> string" where
  "resolvePackage [] typePackage = typePackage"
| "resolvePackage (imp # imps) typePackage =
     (let importPath = Trim (ImportPath imp)
      in case ImportName imp of
           Some name \<Rightarrow>
             if name = typePackage then lastPart importPath else resolvePackage imps typePackage
         | None \<Rightarrow>
             if lastPart importPath = typePackage then typePackage
             else resolvePackage imps typePackage)"

text \<open>
  The switch on \<^verbatim>\<open>compLit.Type\<close>: the key \<^verbatim>\<open>typePackage + "." + typeName\<close>, or \<open>None\<close> for the
  default case.  A selector whose \<^verbatim>\<open>X\<close> is no identifier keeps the current package.
\<close>

fun typeKeyOf :: "ast_File \<Rightarrow> node option \<Rightarrow> string option" where
  "typeKeyOf file (Some (Ident name)) = Some (PkgName file @ ''.'' @ name)"
| "typeKeyOf file (Some (SelectorExpr (Ident x) sel)) =
     Some (resolvePackage (Imports file) x @ ''.'' @ sel)"
| "typeKeyOf file (Some (SelectorExpr _ sel)) = Some (PkgName file @ ''.'' @ sel)"
| "typeKeyOf file _ = None"

definition violation :: "string \<Rightarrow> string \<Rightarrow> string \<Rightarrow> nat \<Rightarrow> string" where
  "violation markerName typeKey path line =
     ''VIOLATION: Direct zero-value initialization of '' @ markerName @ '' '' @ typeKey
       @ '' at '' @ path @ '':'' @ Itoa line"

definition FindZeroValueInitializations_inspectFn ::
  "string \<Rightarrow> ast_File \<Rightarrow> string \<Rightarrow> string set \<Rightarrow> constructors \<Rightarrow> node option \<Rightarrow> string set
     \<Rightarrow> bool \<times> string set" where
  "FindZeroValueInitializations_inspectFn path file markerName typeDeclarations constructors n
       violations =
     (case compLitOf n of
        Some (CompositeLit ty elts line) \<Rightarrow>
          if length elts \<noteq> 0 then (True, violations)
          else (case typeKeyOf file ty of
                  None \<Rightarrow> (True, violations)
                | Some typeKey \<Rightarrow>
                    if typeKey \<notin> typeDeclarations then (True, violations)
                    else if \<not> IsInsideConstructor path line typeKey constructors
                    then (True, insert (violation markerName typeKey path line) violations)
                    else (True, violations))
      | _ \<Rightarrow> (True, violations))"

definition FindZeroValueInitializations_walkFn ::
  "string \<Rightarrow> string set \<Rightarrow> constructors \<Rightarrow> (string set) WalkFunc" where
  "FindZeroValueInitializations_walkFn markerName typeDeclarations constructors path info err
       violations =
     (if err \<noteq> None \<or> Ext path \<noteq> ''.go'' then (None, violations)
      else if HasSuffix path ''_test.go'' then (None, violations)
      else (case ParseFile info of
              None \<Rightarrow> (None, violations)
            | Some file \<Rightarrow>
                (None, Inspect (fileNode file)
                         (FindZeroValueInitializations_inspectFn path file markerName
                            typeDeclarations constructors) violations)))"

definition FindZeroValueInitializations ::
  "entry \<Rightarrow> string \<Rightarrow> string \<Rightarrow> string set \<Rightarrow> constructors \<Rightarrow> error + string set" where
  "FindZeroValueInitializations fs rootPath markerName typeDeclarations constructors =
     (case Walk fs rootPath
             (FindZeroValueInitializations_walkFn markerName typeDeclarations constructors) {} of
        (Some err, _) \<Rightarrow> Inl (Pin err)
      | (None, violations) \<Rightarrow> Inr violations)"

section \<open>The marker kinds and their validators\<close>

subsection \<open>Package valueobject (value-object.go)\<close>

definition valueobject_DeclaredName :: string where
  "valueobject_DeclaredName = ''ValueObject''"

definition valueobject_MarkerField :: string where
  "valueobject_MarkerField = ''_''"

definition valueobject_FullPackage :: string where
  "valueobject_FullPackage =
     ''github.com/nobuenhombre/dddgo/pkg/layers/infrastructure/interface-adapters/application/domain/objects/value-object''"

definition IsValueObjectTypeDeclaration :: IsTypeDeclaration where
  "IsValueObjectTypeDeclaration file structType =
     IsSomeObjectTypeDeclaration file structType valueobject_FullPackage valueobject_MarkerField
       valueobject_DeclaredName"

text \<open>\<^verbatim>\<open>ValidateValueObjectsReport\<close> and \<^verbatim>\<open>ValidateCommandsReport\<close> have the same three fields.\<close>

record Report =
  Types :: "string set"
  Constructors :: constructors
  Violations :: "string set"

text \<open>The two results of a validator, each of which may be nil.\<close>

definition ValidateValueObjects :: "entry \<Rightarrow> string \<Rightarrow> Report option \<times> error option" where
  "ValidateValueObjects fs rootPath =
     (case FindTypeDeclarations fs rootPath IsValueObjectTypeDeclaration of
        Inl err \<Rightarrow> (None, Some (Pin err))
      | Inr types \<Rightarrow>
          if types = {} then (None, None)
          else (case FindConstructors fs rootPath types of
                  Inl err \<Rightarrow> (None, Some (Pin err))
                | Inr constructors \<Rightarrow>
                    (case FindZeroValueInitializations fs rootPath valueobject_DeclaredName types
                            constructors of
                       Inl err \<Rightarrow> (None, Some (Pin err))
                     | Inr violations \<Rightarrow>
                         (Some \<lparr>Types = types, Constructors = constructors,
                                 Violations = violations\<rparr>, None))))"

subsection \<open>Package commands\<close>

definition commands_DeclaredName :: string where
  "commands_DeclaredName = ''Command''"

definition commands_MarkerField :: string where
  "commands_MarkerField = ''_''"

definition commands_FullPackage :: string where
  "commands_FullPackage =
     ''github.com/nobuenhombre/dddgo/pkg/layers/infrastructure/interface-adapters/application/objects/commands''"

definition IsCommandTypeDeclaration :: IsTypeDeclaration where
  "IsCommandTypeDeclaration file structType =
     IsSomeObjectTypeDeclaration file structType commands_FullPackage commands_MarkerField
       commands_DeclaredName"

definition ValidateCommands :: "entry \<Rightarrow> string \<Rightarrow> Report option \<times> error option" where
  "ValidateCommands fs rootPath =
     (case FindTypeDeclarations fs rootPath IsCommandTypeDeclaration of
        Inl err \<Rightarrow> (None, Some (Pin err))
      | Inr types \<Rightarrow>
          if types = {} then (None, None)
          else (case FindConstructors fs rootPath types of
                  Inl err \<Rightarrow> (None, Some (Pin err))
                | Inr constructors \<Rightarrow>
                    (case FindZeroValueInitializations fs rootPath commands_DeclaredName types
                            constructors of
                       Inl err \<Rightarrow> (None, Some (Pin err))
                     | Inr violations \<Rightarrow>
                         (Some \<lparr>Types = types, Constructors = constructors,
                                 Violations = violations\<rparr>, None))))"

subsection \<open>Packages entity and aggregate\<close>

text \<open>These packages declare their markers and marker tests, and no validator.\<close>

definition entity_DeclaredName :: string where
  "entity_DeclaredName = ''Entity''"

definition entity_MarkerField :: string where
  "entity_MarkerField = ''_''"

definition entity_FullPackage :: string where
  "entity_FullPackage =
     ''github.com/nobuenhombre/dddgo/pkg/layers/infrastructure/interface-adapters/application/domain/objects/entity''"

definition IsEntityTypeDeclaration :: IsTypeDeclaration where
  "IsEntityTypeDeclaration file structType =
     IsSomeObjectTypeDeclaration file structType entity_FullPackage entity_MarkerField
       entity_DeclaredName"

definition aggregate_DeclaredName :: string where
  "aggregate_DeclaredName = ''Aggregate''"

definition aggregate_DeclaredRootName :: string where
  "aggregate_DeclaredRootName = ''AggregateRoot''"

definition aggregate_MarkerField :: string where
  "aggregate_MarkerField = ''_''"

definition aggregate_FullPackage :: string where
  "aggregate_FullPackage =
     ''github.com/nobuenhombre/dddgo/pkg/layers/infrastructure/interface-adapters/application/domain/objects/aggregate''"

definition IsAggregateTypeDeclaration :: IsTypeDeclaration where
  "IsAggregateTypeDeclaration file structType =
     IsSomeObjectTypeDeclaration file structType aggregate_FullPackage aggregate_MarkerField
       aggregate_DeclaredName"

definition IsAggregateRootTypeDeclaration :: IsTypeDeclaration where
  "IsAggregateRootTypeDeclaration file structType =
     IsSomeObjectTypeDeclaration file structType aggregate_FullPackage aggregate_MarkerField
       aggregate_DeclaredRootName"

section \<open>The second helpers file, matching types by bare name\<close>

text \<open>
  A second file of package \<^verbatim>\<open>helpers\<close> holds a variant of the three scans, and a second file of
  package \<^verbatim>\<open>valueobject\<close> holds private copies of that variant (\<^verbatim>\<open>findConstructors\<close>,
  \<^verbatim>\<open>findZeroValueInitializations\<close>): the same code.  The variant differs from the scans above in
  the keys only: a type is recorded and looked up under its bare name, and a constructor under
  \<^verbatim>\<open>funcDecl.Name.Name + ":" + ident.Name\<close>.  \<^verbatim>\<open>IsInsideConstructor\<close> is the same in both.
\<close>

definition FindTypeDeclarations_bare_inspectFn ::
  "ast_File \<Rightarrow> IsTypeDeclaration \<Rightarrow> node option \<Rightarrow> string set \<Rightarrow> bool \<times> string set" where
  "FindTypeDeclarations_bare_inspectFn file isTypeDeclaration n typeDeclarations =
     (case n of
        Some (TypeSpec name (StructType flds)) \<Rightarrow>
          if isTypeDeclaration file flds
          then (True, insert name typeDeclarations)
          else (True, typeDeclarations)
      | _ \<Rightarrow> (True, typeDeclarations))"

definition FindTypeDeclarations_bare_walkFn :: "IsTypeDeclaration \<Rightarrow> (string set) WalkFunc" where
  "FindTypeDeclarations_bare_walkFn isTypeDeclaration path info err typeDeclarations =
     (if err \<noteq> None \<or> Ext path \<noteq> ''.go'' then (None, typeDeclarations)
      else if HasSuffix path ''_test.go'' then (None, typeDeclarations)
      else (case ParseFile info of
              None \<Rightarrow> (None, typeDeclarations)
            | Some file \<Rightarrow>
                (None, Inspect (fileNode file)
                         (FindTypeDeclarations_bare_inspectFn file isTypeDeclaration)
                         typeDeclarations)))"

definition FindTypeDeclarations_bare ::
  "entry \<Rightarrow> string \<Rightarrow> IsTypeDeclaration \<Rightarrow> error + string set" where
  "FindTypeDeclarations_bare fs rootPath isTypeDeclaration =
     (case Walk fs rootPath (FindTypeDeclarations_bare_walkFn isTypeDeclaration) {} of
        (Some err, _) \<Rightarrow> Inl (Pin err)
      | (None, typeDeclarations) \<Rightarrow> Inr typeDeclarations)"

definition FindConstructors_bare_inspectFn ::
  "string \<Rightarrow> string set \<Rightarrow> node option \<Rightarrow> constructors \<Rightarrow> bool \<times> constructors" where
  "FindConstructors_bare_inspectFn path typeDeclarations n constructors =
     (case n of
        Some (FuncDecl (Some name) params results body start end) \<Rightarrow>
          if \<not> HasPrefix name ''New'' then (True, constructors)
          else (case results of
                  Some (Field names (Ident ident) # rest) \<Rightarrow>
                    if ident \<in> typeDeclarations
                    then (True, AList.update (name @ '':'' @ ident)
                                  \<lparr>File = path, StartLine = start, EndLine = end\<rparr> constructors)
                    else (True, constructors)
                | _ \<Rightarrow> (True, constructors))
      | _ \<Rightarrow> (True, constructors))"

definition FindConstructors_bare_walkFn :: "string set \<Rightarrow> constructors WalkFunc" where
  "FindConstructors_bare_walkFn typeDeclarations path info err constructors =
     (if err \<noteq> None \<or> Ext path \<noteq> ''.go'' then (None, constructors)
      else if HasSuffix path ''_test.go'' then (None, constructors)
      else (case ParseFile info of
              None \<Rightarrow> (None, constructors)
            | Some file \<Rightarrow>
                (None, Inspect (fileNode file)
                         (FindConstructors_bare_inspectFn path typeDeclarations) constructors)))"

definition FindConstructors_bare :: "entry \<Rightarrow> string \<Rightarrow> string set \<Rightarrow> error + constructors" where
  "FindConstructors_bare fs rootPath typeDeclarations =
     (case Walk fs rootPath (FindConstructors_bare_walkFn typeDeclarations) [] of
        (Some err, _) \<Rightarrow> Inl (Pin err)
      | (None, constructors) \<Rightarrow> Inr constructors)"

text \<open>The switch on \<^verbatim>\<open>compLit.Type\<close> of the bare-name scan: the type name alone.\<close>

fun typeNameOf :: "node option \<Rightarrow> string option" where
  "typeNameOf (Some (Ident name)) = Some name"
| "typeNameOf (Some (SelectorExpr _ sel)) = Some sel"
| "typeNameOf _ = None"

definition FindZeroValueInitializations_bare_inspectFn ::
  "string \<Rightarrow> string \<Rightarrow> string set \<Rightarrow> constructors \<Rightarrow> node option \<Rightarrow> string set
     \<Rightarrow> bool \<times> string set" where
  "FindZeroValueInitializations_bare_inspectFn path markerName typeDeclarations constructors n
       violations =
     (case compLitOf n of
        Some (CompositeLit ty elts line) \<Rightarrow>
          if length elts \<noteq> 0 then (True, violations)
          else (case typeNameOf ty of
                  None \<Rightarrow> (True, violations)
                | Some typeName \<Rightarrow>
                    if typeName \<notin> typeDeclarations then (True, violations)
                    else if \<not> IsInsideConstructor path line typeName constructors
                    then (True, insert (violation markerName typeName path line) violations)
                    else (True, violations))
      | _ \<Rightarrow> (True, violations))"

definition FindZeroValueInitializations_bare_walkFn ::
  "string \<Rightarrow> string set \<Rightarrow> constructors \<Rightarrow> (string set) WalkFunc" where
  "FindZeroValueInitializations_bare_walkFn markerName typeDeclarations constructors path info err
       violations =
     (if err \<noteq> None \<or> Ext path \<noteq> ''.go'' then (None, violations)
      else if HasSuffix path ''_test.go'' then (None, violations)
      else (case ParseFile info of
              None \<Rightarrow> (None, violations)
            | Some file \<Rightarrow>
                (None, Inspect (fileNode file)
                         (FindZeroValueInitializations_bare_inspectFn path markerName
                            typeDeclarations constructors) violations)))"

definition FindZeroValueInitializations_bare ::
  "entry \<Rightarrow> string \<Rightarrow> string \<Rightarrow> string set \<Rightarrow> constructors \<Rightarrow> error + string set" where
  "FindZeroValueInitializations_bare fs rootPath markerName typeDeclarations constructors =
     (case Walk fs rootPath
             (FindZeroValueInitializations_bare_walkFn markerName typeDeclarations constructors)
             {} of
        (Some err, _) \<Rightarrow> Inl (Pin err)
      | (None, violations) \<Rightarrow> Inr violations)"

section \<open>Example trees\<close>

text \<open>
  A file of package \<^verbatim>\<open>money\<close> that imports the value-object package under the alias \<^verbatim>\<open>vo\<close>:
  \<^verbatim>\<open>
   3  type Money struct { amount int; _ vo.ValueObject }
   5  func NewMoney(a int) Money {
   6      m := Money{}
   7      return m }
   9  var bad = Money{}
  11  func use() Money {
  12      consume(Money{})
  13      return Money{}
  14  }
  \<close>
\<close>

definition ex_voImport :: ImportSpec where
  "ex_voImport =
     \<lparr>ImportName = Some ''vo'', ImportPath = [CHR 0x22] @ valueobject_FullPackage @ [CHR 0x22]\<rparr>"

definition ex_moneyFile :: ast_File where
  "ex_moneyFile =
     \<lparr>PkgName = ''money'', Imports = [ex_voImport],
      Decls =
        [Other [TypeSpec ''Money'' (StructType (Some
           [Field [''amount''] (Ident ''int''),
            Field [''_''] (SelectorExpr (Ident ''vo'') ''ValueObject'')]))],
         FuncDecl (Some ''NewMoney'') [Field [''a''] (Ident ''int'')]
           (Some [Field [] (Ident ''Money'')])
           [Other [AssignStmt [Ident ''m''] [CompositeLit (Some (Ident ''Money'')) [] 6],
                   ReturnStmt [Ident ''m'']]] 5 7,
         Other [Other [Ident ''bad'', CompositeLit (Some (Ident ''Money'')) [] 9]],
         FuncDecl (Some ''use'') [] (Some [Field [] (Ident ''Money'')])
           [Other [Other [Other [Ident ''consume'', CompositeLit (Some (Ident ''Money'')) [] 12]],
                   ReturnStmt [CompositeLit (Some (Ident ''Money'')) [] 13]]] 11 14]\<rparr>"

text \<open>
  A file of package \<^verbatim>\<open>plain\<close> without imports:
  \<^verbatim>\<open>
   3  type Plain struct { n int }
   5  var p = Plain{}
  \<close>
\<close>

definition ex_plainFile :: ast_File where
  "ex_plainFile =
     \<lparr>PkgName = ''plain'', Imports = [],
      Decls =
        [Other [TypeSpec ''Plain'' (StructType (Some [Field [''n''] (Ident ''int'')]))],
         Other [Other [Ident ''p'', CompositeLit (Some (Ident ''Plain'')) [] 5]]]\<rparr>"

text \<open>A directory with the plain file, a file that does not parse and an entry that cannot be read.\<close>

definition ex_plainTree :: entry where
  "ex_plainTree =
     Directory (Some [(''broken.go'', RegularFile None), (''gone'', LstatFails),
                      (''plain.go'', RegularFile (Some ex_plainFile))])"

text \<open>
  A file of package \<^verbatim>\<open>order\<close> that imports the commands package without an alias:
  \<^verbatim>\<open>type PlaceOrder struct { id int; _ commands.Command }\<close>
\<close>

definition ex_orderFile :: ast_File where
  "ex_orderFile =
     \<lparr>PkgName = ''order'',
      Imports = [\<lparr>ImportName = None, ImportPath = [CHR 0x22] @ commands_FullPackage @ [CHR 0x22]\<rparr>],
      Decls =
        [Other [TypeSpec ''PlaceOrder'' (StructType (Some
           [Field [''id''] (Ident ''int''),
            Field [''_''] (SelectorExpr (Ident ''commands'') ''Command'')]))]]\<rparr>"

text \<open>
  A file that does not import the value-object package, and names another package \<^verbatim>\<open>vo\<close>:
  \<^verbatim>\<open>type Fake struct { _ vo.ValueObject }\<close>
\<close>

definition ex_lookalikeFile :: ast_File where
  "ex_lookalikeFile =
     \<lparr>PkgName = ''fake'',
      Imports = [\<lparr>ImportName = Some ''vo'',
                  ImportPath = [CHR 0x22] @ ''example.com/other/vo'' @ [CHR 0x22]\<rparr>],
      Decls =
        [Other [TypeSpec ''Fake'' (StructType (Some
           [Field [''_''] (SelectorExpr (Ident ''vo'') ''ValueObject'')]))]]\<rparr>"

text \<open>The field list of \<^verbatim>\<open>struct { _ vo.ValueObject; _ vo.ValueObject }\<close>.\<close>

definition ex_twoMarkers :: "node list" where
  "ex_twoMarkers =
     [Field [''_''] (SelectorExpr (Ident ''vo'') ''ValueObject''),
      Field [''_''] (SelectorExpr (Ident ''vo'') ''ValueObject'')]"

text \<open>
  A file of package \<^verbatim>\<open>factory\<close> that imports \<^verbatim>\<open>example.com/shop/money\<close>:
  \<^verbatim>\<open>
   5  func NewMoney() money.Money {
   6      return money.NewMoney()
   7  }
  \<close>
\<close>

definition ex_factoryFile :: ast_File where
  "ex_factoryFile =
     \<lparr>PkgName = ''factory'',
      Imports = [\<lparr>ImportName = None,
                  ImportPath = [CHR 0x22] @ ''example.com/shop/money'' @ [CHR 0x22]\<rparr>],
      Decls =
        [FuncDecl (Some ''NewMoney'') [] (Some [Field [] (SelectorExpr (Ident ''money'') ''Money'')])
           [Other [ReturnStmt [Other [SelectorExpr (Ident ''money'') ''NewMoney'', Other []]]]]
           5 7]\<rparr>"

text \<open>
  A file of package \<^verbatim>\<open>wallet\<close> with a type \<^verbatim>\<open>Money\<close> of its own, which carries no marker:
  \<^verbatim>\<open>
   3  type Money struct { cents int }
   5  var zero = Money{}
  \<close>
\<close>

definition ex_walletFile :: ast_File where
  "ex_walletFile =
     \<lparr>PkgName = ''wallet'', Imports = [],
      Decls =
        [Other [TypeSpec ''Money'' (StructType (Some [Field [''cents''] (Ident ''int'')]))],
         Other [Other [Ident ''zero'', CompositeLit (Some (Ident ''Money'')) [] 5]]]\<rparr>"

text \<open>The tree \<^verbatim>\<open>a/money.go\<close>, \<^verbatim>\<open>b/wallet.go\<close>.\<close>

definition ex_twoPackages :: entry where
  "ex_twoPackages =
     Directory (Some
       [(''a'', Directory (Some [(''money.go'', RegularFile (Some ex_moneyFile))])),
        (''b'', Directory (Some [(''wallet.go'', RegularFile (Some ex_walletFile))]))])"

text \<open>The tree \<^verbatim>\<open>a/money.go\<close>, \<^verbatim>\<open>b/money.go\<close>: two packages named \<^verbatim>\<open>money\<close> with the same source.\<close>

definition ex_twoCopies :: entry where
  "ex_twoCopies =
     Directory (Some
       [(''a'', Directory (Some [(''money.go'', RegularFile (Some ex_moneyFile))])),
        (''b'', Directory (Some [(''money.go'', RegularFile (Some ex_moneyFile))]))])"

text \<open>The constructor map of the money file when it is found at \<^verbatim>\<open>root/money.go\<close>.\<close>

definition ex_constructors :: constructors where
  "ex_constructors =
     [(constructorKey ''root/money.go'' ''NewMoney'' ''money.Money'',
       \<lparr>File = ''root/money.go'', StartLine = 5, EndLine = 7\<rparr>)]"

text \<open>The nodes below a node: the node itself and, with a node, its children.\<close>

inductive_set subnodes :: "node \<Rightarrow> node set" for root :: node where
  self: "root \<in> subnodes root"
| child: "n \<in> subnodes root \<Longrightarrow> c \<in> set (children n) \<Longrightarrow> c \<in> subnodes root"

section \<open>Errors of the walk\<close>

text \<open>
  None of the three functions handed to \<^const>\<open>Walk\<close> ever returns an error, so the walk never
  stops early and never returns one.
\<close>

lemma walk_no_error:
  "(\<And>p e err s. fst (fn p e err s) = None) \<Longrightarrow> fst (walk path e fn s) = None"
  "(\<And>p e err s. fst (fn p e err s) = None) \<Longrightarrow> fst (walkNames path names fn s) = None"
proof (induction path e fn s and path names fn s rule: walk_walkNames.induct)
  case (1 path r fn s)
  then show ?case by simp
next
  case (2 path fn s)
  then show ?case by simp
next
  case (3 path names fn s)
  then show ?case
    using "3.prems" [of path "Directory (Some names)" None s]
    by (cases "fn path (Directory (Some names)) None s") (auto split: option.splits)
next
  case (4 path fn s)
  then show ?case by simp
next
  case (5 path fn s)
  show ?case by simp
next
  case (6 path name rest fn s)
  then show ?case
    using "6.prems" [of "Join path name" LstatFails "Some LstatError" s]
    by (cases "fn (Join path name) LstatFails (Some LstatError) s") (auto split: option.splits)
next
  case (7 path name r rest fn s)
  note ok = "7.prems"
  have "fst (fn (Join path name) (RegularFile r) None s) = None"
    by (rule ok)
  then obtain s1 where s1: "fn (Join path name) (RegularFile r) None s = (None, s1)"
    by (cases "fn (Join path name) (RegularFile r) None s") auto
  then show ?case
    using "7.IH"(2) ok by auto
next
  case (8 path name d rest fn s)
  then show ?case
    by (cases "walk (Join path name) (Directory d) fn s") (auto split: option.splits)
qed

lemma Walk_no_error:
  assumes ok: "\<And>p e err s. fst (fn p e err s) = None"
  shows "fst (Walk fs root fn s) = None"
proof (cases fs)
  case LstatFails
  then show ?thesis
    using ok [of root LstatFails "Some LstatError" s]
    by (cases "fn root LstatFails (Some LstatError) s") (simp add: Walk_def)
next
  case (RegularFile r)
  then show ?thesis
    using walk_no_error(1) [of fn root fs s, OF ok]
    by (cases "walk root fs fn s") (simp add: Walk_def)
next
  case (Directory d)
  then show ?thesis
    using walk_no_error(1) [of fn root fs s, OF ok]
    by (cases "walk root fs fn s") (simp add: Walk_def)
qed

lemma FindTypeDeclarations_walkFn_ok: "fst (FindTypeDeclarations_walkFn isDecl p e err s) = None"
  by (simp add: FindTypeDeclarations_walkFn_def split: option.splits)

lemma FindConstructors_walkFn_ok: "fst (FindConstructors_walkFn types p e err s) = None"
  by (simp add: FindConstructors_walkFn_def split: option.splits)

lemma FindZeroValueInitializations_walkFn_ok:
  "fst (FindZeroValueInitializations_walkFn m types ctors p e err s) = None"
  by (simp add: FindZeroValueInitializations_walkFn_def split: option.splits)

lemma FindTypeDeclarations_Inr:
  "FindTypeDeclarations fs rootPath isDecl = Inr (snd (Walk fs rootPath (FindTypeDeclarations_walkFn isDecl) {}))"
  using Walk_no_error [of "FindTypeDeclarations_walkFn isDecl" fs rootPath "{}", OF FindTypeDeclarations_walkFn_ok]
  by (cases "Walk fs rootPath (FindTypeDeclarations_walkFn isDecl) {}") (simp add: FindTypeDeclarations_def)

lemma FindConstructors_Inr:
  "FindConstructors fs rootPath types = Inr (snd (Walk fs rootPath (FindConstructors_walkFn types) []))"
  using Walk_no_error [of "FindConstructors_walkFn types" fs rootPath "[]", OF FindConstructors_walkFn_ok]
  by (cases "Walk fs rootPath (FindConstructors_walkFn types) []") (simp add: FindConstructors_def)

lemma FindZeroValueInitializations_Inr:
  "FindZeroValueInitializations fs rootPath m types ctors =
     Inr (snd (Walk fs rootPath (FindZeroValueInitializations_walkFn m types ctors) {}))"
  using Walk_no_error [of "FindZeroValueInitializations_walkFn m types ctors" fs rootPath "{}",
      OF FindZeroValueInitializations_walkFn_ok]
  by (cases "Walk fs rootPath (FindZeroValueInitializations_walkFn m types ctors) {}")
     (simp add: FindZeroValueInitializations_def)

lemma ValidateValueObjects_no_error: "snd (ValidateValueObjects fs rootPath) = None"
  by (simp add: ValidateValueObjects_def FindTypeDeclarations_Inr FindConstructors_Inr
      FindZeroValueInitializations_Inr)

lemma ValidateCommands_no_error: "snd (ValidateCommands fs rootPath) = None"
  by (simp add: ValidateCommands_def FindTypeDeclarations_Inr FindConstructors_Inr
      FindZeroValueInitializations_Inr)

text \<open>A property that every call of the walk function keeps holds of the state the walk returns.\<close>

lemma walk_invariant:
  "(\<And>p e err s. P s \<Longrightarrow> P (snd (fn p e err s))) \<Longrightarrow> P s \<Longrightarrow> P (snd (walk path e fn s))"
  "(\<And>p e err s. P s \<Longrightarrow> P (snd (fn p e err s))) \<Longrightarrow> P s \<Longrightarrow> P (snd (walkNames path names fn s))"
proof (induction path e fn s and path names fn s rule: walk_walkNames.induct)
  case (1 path r fn s)
  then show ?case by simp
next
  case (2 path fn s)
  then show ?case by simp
next
  case (3 path names fn s)
  have "P (snd (fn path (Directory (Some names)) None s))"
    using "3.prems" by blast
  then show ?case
    using "3.IH" "3.prems"(1)
    by (cases "fn path (Directory (Some names)) None s") (auto split: option.splits)
next
  case (4 path fn s)
  then show ?case by simp
next
  case (5 path fn s)
  then show ?case by simp
next
  case (6 path name rest fn s)
  have "P (snd (fn (Join path name) LstatFails (Some LstatError) s))"
    using "6.prems" by blast
  then show ?case
    using "6.IH" "6.prems"(1)
    by (cases "fn (Join path name) LstatFails (Some LstatError) s") (auto split: option.splits)
next
  case (7 path name r rest fn s)
  have "P (snd (fn (Join path name) (RegularFile r) None s))"
    using "7.prems" by blast
  then show ?case
    using "7.IH"(2,3) "7.prems"(1)
    by (cases "fn (Join path name) (RegularFile r) None s") (auto split: option.splits)
next
  case (8 path name d rest fn s)
  have "P (snd (walk (Join path name) (Directory d) fn s))"
    using "8.IH"(1) "8.prems" by blast
  then show ?case
    using "8.IH"(2,3) "8.prems"(1)
    by (cases "walk (Join path name) (Directory d) fn s") (auto split: option.splits)
qed

lemma Walk_invariant:
  assumes step: "\<And>p e err s. P s \<Longrightarrow> P (snd (fn p e err s))" and init: "P s"
  shows "P (snd (Walk fs root fn s))"
proof -
  have a: "P (snd (fn root LstatFails (Some LstatError) s))"
    using step init by blast
  have b: "P (snd (walk root fs fn s))"
    using walk_invariant(1) [of P fn s root fs] step init by blast
  show ?thesis
  proof (cases fs)
    case LstatFails
    then show ?thesis
      using a by (cases "fn root LstatFails (Some LstatError) s") (auto simp: Walk_def split: option.splits)
  next
    case (RegularFile r)
    then show ?thesis
      using b by (cases "walk root fs fn s") (auto simp: Walk_def split: option.splits)
  next
    case (Directory d)
    then show ?thesis
      using b by (cases "walk root fs fn s") (auto simp: Walk_def split: option.splits)
  qed
qed

section \<open>Suffixes and constructor keys\<close>

lemma HasSuffix_suffix: "HasSuffix s suf \<longleftrightarrow> suffix suf s"
proof
  assume "HasSuffix s suf"
  then have "s = take (length s - length suf) s @ suf"
    by (metis HasSuffix_def append_take_drop_id)
  then show "suffix suf s"
    by (metis suffixI)
next
  assume "suffix suf s"
  then obtain zs where "s = zs @ suf"
    by (auto simp: suffix_def)
  then show "HasSuffix s suf"
    by (simp add: HasSuffix_def)
qed

lemma HasSuffix_Join: "HasSuffix name suf \<Longrightarrow> HasSuffix (Join dir name) suf"
  by (auto simp: HasSuffix_suffix Join_def suffix_def)

lemma last_separator:
  assumes "c \<notin> set a" "c \<notin> set b" "xs @ c # a = ys @ c # b"
  shows "a = b"
proof -
  have "takeWhile (\<lambda>x. x \<noteq> c) (rev (xs @ c # a)) = rev a"
    using assms(1) by (auto simp: takeWhile_tail)
  moreover have "takeWhile (\<lambda>x. x \<noteq> c) (rev (ys @ c # b)) = rev b"
    using assms(2) by (auto simp: takeWhile_tail)
  ultimately show ?thesis
    using assms(3) by simp
qed

lemma constructorKey_type:
  assumes "CHR '':'' \<notin> set t" "CHR '':'' \<notin> set typeKey"
  shows "HasSuffix (constructorKey p f t) ('':'' @ typeKey) \<longleftrightarrow> t = typeKey"
proof
  assume "HasSuffix (constructorKey p f t) ('':'' @ typeKey)"
  then obtain zs where "p @ '':'' @ f @ '':'' @ t = zs @ '':'' @ typeKey"
    by (auto simp: HasSuffix_suffix suffix_def constructorKey_def)
  then have "(p @ '':'' @ f) @ CHR '':'' # t = zs @ CHR '':'' # typeKey"
    by simp
  then show "t = typeKey"
    using assms last_separator by metis
next
  assume "t = typeKey"
  then show "HasSuffix (constructorKey p f t) ('':'' @ typeKey)"
    by (simp add: HasSuffix_suffix constructorKey_def suffix_def)
qed

lemma IsInsideConstructor_iff:
  "IsInsideConstructor file line typeKey constructors \<longleftrightarrow>
     (\<exists>(key, c) \<in> set constructors. HasSuffix key ('':'' @ typeKey) \<and> File c = file
        \<and> StartLine c \<le> line \<and> line \<le> EndLine c)"
  by (induction constructors) auto

section \<open>Properties of Inspect\<close>

lemma subnodes_cases:
  "m \<in> subnodes n \<Longrightarrow> m = n \<or> (\<exists>c \<in> set (children n). m \<in> subnodes c)"
proof (induction rule: subnodes.induct)
  case self
  show ?case by simp
next
  case (child k c)
  then show ?case
    by (auto intro: subnodes.intros)
qed

lemma Inspect_true:
  assumes "\<And>n s. fst (f n s)"
  shows "Inspect n f s = snd (f None (fold (\<lambda>c. Inspect c f) (children n) (snd (f (Some n) s))))"
  using assms [of "Some n" s] by (cases "f (Some n) s") (simp add: Inspect.simps)

lemma fold_invariant:
  "(\<And>c s. c \<in> set cs \<Longrightarrow> P s \<Longrightarrow> P (F c s)) \<Longrightarrow> P s \<Longrightarrow> P (fold F cs s)"
  by (induction cs arbitrary: s) auto

lemma Inspect_invariant:
  assumes step: "\<And>n s. P s \<Longrightarrow> P (snd (f n s))"
  shows "P s \<Longrightarrow> P (Inspect n f s)"
proof (induction n arbitrary: s rule: measure_induct_rule [where f = size])
  case (less n)
  obtain b s1 where fs: "f (Some n) s = (b, s1)"
    by (cases "f (Some n) s")
  have s1: "P s1"
    using step [OF less.prems, of "Some n"] fs by simp
  show ?case
  proof (cases b)
    case False
    then show ?thesis
      using fs s1 by (simp add: Inspect.simps)
  next
    case True
    have "P (fold (\<lambda>c. Inspect c f) (children n) s1)"
    proof (rule fold_invariant [where P = P])
      show "P s1" by (rule s1)
    next
      fix c s
      assume "c \<in> set (children n)" "P s"
      then show "P (Inspect c f s)"
        using less.IH by (simp add: size_children)
    qed
    then have "P (snd (f None (fold (\<lambda>c. Inspect c f) (children n) s1)))"
      by (rule step)
    then show ?thesis
      using fs True by (simp add: Inspect.simps)
  qed
qed

lemma Inspect_visits:
  assumes true: "\<And>n s. fst (f n s)"
    and mono: "\<And>n s. s \<subseteq> snd (f n s)"
    and hit: "\<And>s. v \<in> snd (f (Some m) s)"
  shows "m \<in> subnodes n \<Longrightarrow> v \<in> Inspect n f s"
proof (induction n arbitrary: s rule: measure_induct_rule [where f = size])
  case (less n)
  have keep: "v \<in> s \<Longrightarrow> v \<in> snd (f k s)" for k s
    using mono [of s k] by blast
  have keepI: "v \<in> s \<Longrightarrow> v \<in> Inspect k f s" for k s
    using keep by (rule Inspect_invariant [where P = "\<lambda>s. v \<in> s"])
  let ?s1 = "snd (f (Some n) s)"
  have "v \<in> fold (\<lambda>c. Inspect c f) (children n) ?s1"
  proof (cases "m = n")
    case True
    then have "v \<in> ?s1"
      using hit by simp
    then show ?thesis
      by (rule fold_invariant [where P = "\<lambda>s. v \<in> s", rotated]) (rule keepI)
  next
    case False
    then obtain c where c: "c \<in> set (children n)" "m \<in> subnodes c"
      using subnodes_cases [OF less.prems] by blast
    then obtain xs ys where split: "children n = xs @ c # ys"
      by (meson split_list)
    have "v \<in> Inspect c f (fold (\<lambda>c. Inspect c f) xs ?s1)"
      using less.IH [of c] c by (simp add: size_children)
    then have "v \<in> fold (\<lambda>c. Inspect c f) ys (Inspect c f (fold (\<lambda>c. Inspect c f) xs ?s1))"
      by (rule fold_invariant [where P = "\<lambda>s. v \<in> s", rotated]) (rule keepI)
    then show ?thesis
      by (simp add: split)
  qed
  then have "v \<in> snd (f None (fold (\<lambda>c. Inspect c f) (children n) ?s1))"
    by (rule keep)
  then show ?case
    by (simp add: Inspect_true [of f, OF true])
qed

lemma zv_true: "fst (FindZeroValueInitializations_inspectFn path file m types ctors n V)"
  by (simp add: FindZeroValueInitializations_inspectFn_def split: option.splits node.splits)

lemma zv_mono: "V \<subseteq> snd (FindZeroValueInitializations_inspectFn path file m types ctors n V)"
  by (auto simp: FindZeroValueInitializations_inspectFn_def split: option.splits node.splits)

text \<open>
  The keys \<^const>\<open>FindConstructors\<close> builds: each is \<^const>\<open>constructorKey\<close> of the file of its
  record, a function name and a member of the type set; and the key determines the three when
  the name and the type hold no colon.
\<close>

lemma set_AList_update: "set (AList.update k v al) \<subseteq> insert (k, v) (set al)"
  by (induction al) auto

lemma FindConstructors_keys:
  assumes "FindConstructors fs rootPath typeDeclarations = Inr constructors"
  shows "\<forall>(key, c) \<in> set constructors.
           \<exists>p f t. key = constructorKey p f t \<and> File c = p \<and> t \<in> typeDeclarations"
proof -
  let ?P = "\<lambda>C :: constructors. \<forall>(key, c) \<in> set C.
      \<exists>p f t. key = constructorKey p f t \<and> File c = p \<and> t \<in> typeDeclarations"
  have visit: "?P (snd (FindConstructors_inspectFn path src typeDeclarations n C))"
    if "?P C" for path src n C
  proof -
    have upd: "?P (AList.update (constructorKey path f t) \<lparr>File = path, StartLine = a, EndLine = b\<rparr> C)"
      if "t \<in> typeDeclarations" for f t a b
      using \<open>?P C\<close> that
        set_AList_update [of "constructorKey path f t" "\<lparr>File = path, StartLine = a, EndLine = b\<rparr>" C]
      by fastforce
    show ?thesis
      using \<open>?P C\<close> upd
      by (auto simp: FindConstructors_inspectFn_def Let_def
          split: option.splits node.splits list.splits simp del: split_paired_All)
  qed
  have per_file: "?P (snd (FindConstructors_walkFn typeDeclarations p e err C))" if "?P C" for p e err C
  proof (cases "ParseFile e")
    case None
    then show ?thesis
      using that by (simp add: FindConstructors_walkFn_def)
  next
    case (Some src)
    have "?P (Inspect (fileNode src) (FindConstructors_inspectFn p src typeDeclarations) C)"
      using visit that by (rule Inspect_invariant [where P = ?P])
    then show ?thesis
      using that Some by (simp add: FindConstructors_walkFn_def)
  qed
  have init: "?P []"
    by simp
  have "?P (snd (Walk fs rootPath (FindConstructors_walkFn typeDeclarations) []))"
    by (rule Walk_invariant [where P = ?P, OF per_file init])
  then show ?thesis
    using assms by (simp add: FindConstructors_Inr)
qed

lemma constructorKey_inject:
  assumes "CHR '':'' \<notin> set f1" "CHR '':'' \<notin> set t1" "CHR '':'' \<notin> set f2" "CHR '':'' \<notin> set t2"
    and "constructorKey p1 f1 t1 = constructorKey p2 f2 t2"
  shows "p1 = p2 \<and> f1 = f2 \<and> t1 = t2"
proof -
  have eq: "(p1 @ '':'' @ f1) @ CHR '':'' # t1 = (p2 @ '':'' @ f2) @ CHR '':'' # t2"
    using assms(5) by (simp add: constructorKey_def)
  then have t: "t1 = t2"
    using assms(2,4) last_separator by metis
  with eq have "p1 @ CHR '':'' # f1 = p2 @ CHR '':'' # f2"
    by simp
  then have f: "f1 = f2"
    using assms(1,3) last_separator by metis
  with \<open>p1 @ CHR '':'' # f1 = p2 @ CHR '':'' # f2\<close> have "p1 = p2"
    by simp
  with t f show ?thesis
    by simp
qed

section \<open>The marker test as a condition on the field list\<close>

lemma GetPackageAlias_find:
  "GetPackageAlias file fullPackage =
     (case find (\<lambda>imp. Trim (ImportPath imp) = fullPackage) (Imports file) of
        None \<Rightarrow> []
      | Some imp \<Rightarrow> (case ImportName imp of Some name \<Rightarrow> name | None \<Rightarrow> lastPart fullPackage))"
proof -
  have "GetPackageAlias_loop imps fullPackage =
     (case find (\<lambda>imp. Trim (ImportPath imp) = fullPackage) imps of
        None \<Rightarrow> []
      | Some imp \<Rightarrow> (case ImportName imp of Some name \<Rightarrow> name | None \<Rightarrow> lastPart fullPackage))"
    for imps
    by (induction imps) simp_all
  then show ?thesis
    by (simp add: GetPackageAlias_def)
qed

lemma isMarker_iff:
  "isMarker f markerField pkgAlias declaredName \<longleftrightarrow>
     f = Field [markerField] (SelectorExpr (Ident pkgAlias) declaredName)"
proof (cases "\<exists>names x sel. f = Field names (SelectorExpr (Ident x) sel)")
  case True
  then obtain names x sel where f: "f = Field names (SelectorExpr (Ident x) sel)"
    by blast
  have "length names = 1 \<and> hd names = markerField \<longleftrightarrow> names = [markerField]"
    by (cases names) auto
  then show ?thesis
    using f by auto
next
  case False
  then have "\<not> isMarker f markerField pkgAlias declaredName"
    by (cases "(f, markerField, pkgAlias, declaredName)" rule: isMarker.cases) auto
  then show ?thesis
    using False by auto
qed

lemma IsSomeObjectTypeDeclaration_loop_iff:
  "IsSomeObjectTypeDeclaration_loop fl markerField pkgAlias declaredName \<longleftrightarrow>
     Field [markerField] (SelectorExpr (Ident pkgAlias) declaredName) \<in> set fl"
  by (induction fl) (auto simp: isMarker_iff)

text \<open>
  The last part of the path of the value-object package is \<^verbatim>\<open>value-object\<close>, while the package
  is named \<^verbatim>\<open>valueobject\<close>: for a file that imports it without an alias the marker test asks for the
  selector \<^verbatim>\<open>value-object.ValueObject\<close>.
\<close>

lemma valueobject_unaliased_name:
  "GetPackageAlias
     \<lparr>PkgName = p, Imports = [\<lparr>ImportName = None,
                               ImportPath = [CHR 0x22] @ valueobject_FullPackage @ [CHR 0x22]\<rparr>],
      Decls = ds\<rparr> valueobject_FullPackage = ''value-object''"
  by (simp add: GetPackageAlias_def Trim_def lastPart_def valueobject_FullPackage_def)

lemma td_true: "fst (FindTypeDeclarations_inspectFn file isDecl n T)"
  by (simp add: FindTypeDeclarations_inspectFn_def split: option.splits node.splits)

section \<open>The claims\<close>

text \<open>
  C1.  Take a node at which the scan finds an empty composite literal whose type resolves to a
  marked type (the key \<open>typeKey\<close>, at \<open>line\<close> of the file at \<open>path\<close>).  The visit adds the
  violation of that type, file and line if and only if no constructor record for that type has
  the file \<open>path\<close> and a span with \<open>StartLine \<le> line \<le> EndLine\<close>; in particular it adds it
  whenever every record lies in another file.  A record is for the type when its key is
  \<^const>\<open>constructorKey\<close> of some path, some function name and that type.  Keys are those
  \<^const>\<open>FindConstructors\<close> builds, and type keys hold no colon, as Go identifiers do not.
\<close>

theorem C1_violation_iff_no_constructor_in_file:
  assumes "compLitOf n = Some (CompositeLit ty [] line)"
    and "typeKeyOf file ty = Some typeKey"
    and "typeKey \<in> typeDeclarations"
    and "CHR '':'' \<notin> set typeKey"
    and "\<forall>(key, c) \<in> set constructors. \<exists>p f t. key = constructorKey p f t \<and> CHR '':'' \<notin> set t"
  shows "FindZeroValueInitializations_inspectFn path file markerName typeDeclarations constructors
           n violations =
         (True, if (\<exists>(key, c) \<in> set constructors. (\<exists>p f. key = constructorKey p f typeKey)
                      \<and> File c = path \<and> StartLine c \<le> line \<and> line \<le> EndLine c)
                then violations
                else insert (violation markerName typeKey path line) violations)
       \<and> ((\<forall>(key, c) \<in> set constructors. File c \<noteq> path) \<longrightarrow>
            snd (FindZeroValueInitializations_inspectFn path file markerName typeDeclarations
                   constructors n violations) =
            insert (violation markerName typeKey path line) violations)"
proof -
  have inside: "IsInsideConstructor path line typeKey constructors \<longleftrightarrow>
      (\<exists>(key, c) \<in> set constructors. (\<exists>p f. key = constructorKey p f typeKey)
          \<and> File c = path \<and> StartLine c \<le> line \<and> line \<le> EndLine c)"
    (is "?L \<longleftrightarrow> ?R")
  proof
    assume ?L
    then obtain key c where kc: "(key, c) \<in> set constructors"
      and suf: "HasSuffix key ('':'' @ typeKey)"
      and span: "File c = path" "StartLine c \<le> line" "line \<le> EndLine c"
      by (auto simp: IsInsideConstructor_iff)
    from kc assms(5) obtain p f t where key: "key = constructorKey p f t" and t: "CHR '':'' \<notin> set t"
      by blast
    have "t = typeKey"
      using constructorKey_type [OF t assms(4), of p f] suf key by simp
    with kc key span show ?R
      by blast
  next
    assume ?R
    then obtain key c p f where kc: "(key, c) \<in> set constructors"
      and key: "key = constructorKey p f typeKey"
      and span: "File c = path" "StartLine c \<le> line" "line \<le> EndLine c"
      by blast
    have "HasSuffix key ('':'' @ typeKey)"
      using constructorKey_type [OF assms(4) assms(4), of p f] key by simp
    with kc span show ?L
      unfolding IsInsideConstructor_iff by blast
  qed
  have step: "FindZeroValueInitializations_inspectFn path file markerName typeDeclarations
      constructors n violations =
      (True, if IsInsideConstructor path line typeKey constructors then violations
             else insert (violation markerName typeKey path line) violations)"
    using assms(1-3) by (simp add: FindZeroValueInitializations_inspectFn_def)
  have other: "\<not> IsInsideConstructor path line typeKey constructors"
    if "\<forall>(key, c) \<in> set constructors. File c \<noteq> path"
    using that unfolding IsInsideConstructor_iff by blast
  show ?thesis
    using step inside other by simp
qed

theorem C1_witness:
  "FindZeroValueInitializations_inspectFn ''root/money.go'' ex_moneyFile ''ValueObject''
     {''money.Money''} ex_constructors (Some (CompositeLit (Some (Ident ''Money'')) [] 9)) {} =
     (True, {violation ''ValueObject'' ''money.Money'' ''root/money.go'' 9})
   \<and> FindZeroValueInitializations_inspectFn ''root/money.go'' ex_moneyFile ''ValueObject''
     {''money.Money''} ex_constructors
     (Some (AssignStmt [Ident ''m''] [CompositeLit (Some (Ident ''Money'')) [] 6])) {} = (True, {})
   \<and> snd (FindZeroValueInitializations_inspectFn ''root/other.go'' ex_moneyFile ''ValueObject''
     {''money.Money''} ex_constructors
     (Some (AssignStmt [Ident ''m''] [CompositeLit (Some (Ident ''Money'')) [] 6])) {}) =
     {violation ''ValueObject'' ''money.Money'' ''root/other.go'' 6}"
proof -
  have key: "typeKeyOf ex_moneyFile (Some (Ident ''Money'')) = Some ''money.Money''"
    by (simp add: ex_moneyFile_def)
  have colon: "CHR '':'' \<notin> set ''money.Money''"
    by simp
  have wf: "\<forall>(key, c) \<in> set ex_constructors.
      \<exists>p f t. key = constructorKey p f t \<and> CHR '':'' \<notin> set t"
  proof -
    have "\<exists>p f t. constructorKey ''root/money.go'' ''NewMoney'' ''money.Money'' =
        constructorKey p f t \<and> CHR '':'' \<notin> set t"
      using colon by blast
    then show ?thesis
      unfolding ex_constructors_def by simp
  qed
  have lit9: "compLitOf (Some (CompositeLit (Some (Ident ''Money'')) [] 9)) =
      Some (CompositeLit (Some (Ident ''Money'')) [] 9)"
    by simp
  have lit6: "compLitOf (Some (AssignStmt [Ident ''m''] [CompositeLit (Some (Ident ''Money'')) [] 6])) =
      Some (CompositeLit (Some (Ident ''Money'')) [] 6)"
    by simp
  have mem: "''money.Money'' \<in> {''money.Money''}"
    by simp
  have inside: "\<exists>(key, c) \<in> set ex_constructors. (\<exists>p f. key = constructorKey p f ''money.Money'')
      \<and> File c = ''root/money.go'' \<and> StartLine c \<le> 6 \<and> 6 \<le> EndLine c"
    unfolding ex_constructors_def by auto
  have outside: "\<not> (\<exists>(key, c) \<in> set ex_constructors. (\<exists>p f. key = constructorKey p f ''money.Money'')
      \<and> File c = ''root/money.go'' \<and> StartLine c \<le> 9 \<and> 9 \<le> EndLine c)"
    unfolding ex_constructors_def by auto
  have elsewhere: "\<forall>(key, c) \<in> set ex_constructors. File c \<noteq> ''root/other.go''"
    unfolding ex_constructors_def by simp
  have r1: "FindZeroValueInitializations_inspectFn ''root/money.go'' ex_moneyFile ''ValueObject''
     {''money.Money''} ex_constructors (Some (CompositeLit (Some (Ident ''Money'')) [] 9)) {} =
     (True, {violation ''ValueObject'' ''money.Money'' ''root/money.go'' 9})"
    using C1_violation_iff_no_constructor_in_file [OF lit9 key mem colon wf,
        of "''root/money.go''" "''ValueObject''" "{}"] outside
    by simp
  have r2: "FindZeroValueInitializations_inspectFn ''root/money.go'' ex_moneyFile ''ValueObject''
     {''money.Money''} ex_constructors
     (Some (AssignStmt [Ident ''m''] [CompositeLit (Some (Ident ''Money'')) [] 6])) {} = (True, {})"
    using C1_violation_iff_no_constructor_in_file [OF lit6 key mem colon wf,
        of "''root/money.go''" "''ValueObject''" "{}"] inside
    by simp
  have r3: "snd (FindZeroValueInitializations_inspectFn ''root/other.go'' ex_moneyFile ''ValueObject''
     {''money.Money''} ex_constructors
     (Some (AssignStmt [Ident ''m''] [CompositeLit (Some (Ident ''Money'')) [] 6])) {}) =
     {violation ''ValueObject'' ''money.Money'' ''root/other.go'' 6}"
    using C1_violation_iff_no_constructor_in_file [OF lit6 key mem colon wf,
        of "''root/other.go''" "''ValueObject''" "{}"] elsewhere
    by blast
  show ?thesis
    using r1 r2 r3 by simp
qed

text \<open>
  C2.  The claim as stated asks for exactly one marker field.  The loop of
  \<^const>\<open>IsSomeObjectTypeDeclaration\<close> returns at the first field that passes the test, so a struct
  with two marker fields is recorded as well (the counterexample below).

  As amended: visiting a struct declaration adds the key \<^verbatim>\<open>package.Name\<close> if and only if the
  field list is not nil and holds a field with exactly one name, the marker field name, and with
  the type \<^verbatim>\<open>alias.MarkerType\<close>, where \<open>alias\<close> is what the first import of the marker's
  package in this file gives: its explicit name, or else the last part of the path; an empty
  alias matches nothing.  A file none of whose imports is the marker's package adds nothing,
  whatever its structs look like.
\<close>

theorem C2_type_declaration_record_iff:
  "snd (FindTypeDeclarations_inspectFn file
          (\<lambda>f st. IsSomeObjectTypeDeclaration f st fullPackage markerField declaredName)
          (Some (TypeSpec name (StructType flds))) typeDeclarations) =
     (if \<exists>fl imp alias.
           flds = Some fl
         \<and> find (\<lambda>imp. Trim (ImportPath imp) = fullPackage) (Imports file) = Some imp
         \<and> alias = (case ImportName imp of Some a \<Rightarrow> a | None \<Rightarrow> lastPart fullPackage)
         \<and> alias \<noteq> []
         \<and> Field [markerField] (SelectorExpr (Ident alias) declaredName) \<in> set fl
      then insert (PkgName file @ ''.'' @ name) typeDeclarations
      else typeDeclarations)
   \<and> ((\<forall>imp \<in> set (Imports file). Trim (ImportPath imp) \<noteq> fullPackage) \<longrightarrow>
        Inspect (fileNode file)
          (FindTypeDeclarations_inspectFn file
             (\<lambda>f st. IsSomeObjectTypeDeclaration f st fullPackage markerField declaredName))
          typeDeclarations = typeDeclarations)"
proof -
  let ?is = "\<lambda>f st. IsSomeObjectTypeDeclaration f st fullPackage markerField declaredName"
  have iff: "?is file flds \<longleftrightarrow>
      (\<exists>fl imp alias.
           flds = Some fl
         \<and> find (\<lambda>imp. Trim (ImportPath imp) = fullPackage) (Imports file) = Some imp
         \<and> alias = (case ImportName imp of Some a \<Rightarrow> a | None \<Rightarrow> lastPart fullPackage)
         \<and> alias \<noteq> []
         \<and> Field [markerField] (SelectorExpr (Ident alias) declaredName) \<in> set fl)"
    by (cases flds; cases "find (\<lambda>imp. Trim (ImportPath imp) = fullPackage) (Imports file)")
       (auto simp: IsSomeObjectTypeDeclaration_def GetPackageAlias_find
          IsSomeObjectTypeDeclaration_loop_iff Let_def)
  have first: "snd (FindTypeDeclarations_inspectFn file ?is
      (Some (TypeSpec name (StructType flds))) typeDeclarations) =
      (if ?is file flds then insert (PkgName file @ ''.'' @ name) typeDeclarations
       else typeDeclarations)"
    by (simp add: FindTypeDeclarations_inspectFn_def)
  have second: "Inspect (fileNode file) (FindTypeDeclarations_inspectFn file ?is) typeDeclarations
      = typeDeclarations"
    if none: "\<forall>imp \<in> set (Imports file). Trim (ImportPath imp) \<noteq> fullPackage"
  proof -
    have "find (\<lambda>imp. Trim (ImportPath imp) = fullPackage) (Imports file) = None"
      using none by (simp add: find_None_iff)
    then have no: "\<not> ?is file st" for st
      by (simp add: IsSomeObjectTypeDeclaration_def GetPackageAlias_find split: option.splits)
    have inv: "snd (FindTypeDeclarations_inspectFn file ?is n s) = typeDeclarations"
      if "s = typeDeclarations" for n s
      using that no by (simp add: FindTypeDeclarations_inspectFn_def split: option.splits node.splits)
    show ?thesis
      using Inspect_invariant [where P = "\<lambda>s. s = typeDeclarations"
          and f = "FindTypeDeclarations_inspectFn file ?is", OF inv refl]
      by simp
  qed
  show ?thesis
    using first iff second by simp
qed

theorem C2_witness:
  "snd (FindTypeDeclarations_inspectFn ex_moneyFile IsValueObjectTypeDeclaration
          (Some (TypeSpec ''Money'' (StructType (Some
             [Field [''amount''] (Ident ''int''),
              Field [''_''] (SelectorExpr (Ident ''vo'') ''ValueObject'')])))) {}) = {''money.Money''}
   \<and> snd (FindTypeDeclarations_inspectFn ex_orderFile IsCommandTypeDeclaration
          (Some (TypeSpec ''PlaceOrder'' (StructType (Some
             [Field [''id''] (Ident ''int''),
              Field [''_''] (SelectorExpr (Ident ''commands'') ''Command'')])))) {}) =
       {''order.PlaceOrder''}
   \<and> Inspect (fileNode ex_lookalikeFile)
         (FindTypeDeclarations_inspectFn ex_lookalikeFile IsValueObjectTypeDeclaration) {} = {}"
proof -
  have vo: "IsValueObjectTypeDeclaration =
      (\<lambda>f st. IsSomeObjectTypeDeclaration f st valueobject_FullPackage ''_'' ''ValueObject'')"
    by (rule ext, rule ext)
       (simp add: IsValueObjectTypeDeclaration_def valueobject_MarkerField_def
          valueobject_DeclaredName_def)
  have cmd: "IsCommandTypeDeclaration =
      (\<lambda>f st. IsSomeObjectTypeDeclaration f st commands_FullPackage ''_'' ''Command'')"
    by (rule ext, rule ext)
       (simp add: IsCommandTypeDeclaration_def commands_MarkerField_def commands_DeclaredName_def)
  have f1: "find (\<lambda>imp. Trim (ImportPath imp) = valueobject_FullPackage) (Imports ex_moneyFile)
      = Some ex_voImport"
    by (simp add: ex_moneyFile_def ex_voImport_def Trim_def valueobject_FullPackage_def)
  have f2: "find (\<lambda>imp. Trim (ImportPath imp) = commands_FullPackage) (Imports ex_orderFile)
      = Some \<lparr>ImportName = None, ImportPath = [CHR 0x22] @ commands_FullPackage @ [CHR 0x22]\<rparr>"
    by (simp add: ex_orderFile_def Trim_def commands_FullPackage_def)
  have l2: "lastPart commands_FullPackage = ''commands''"
    by (simp add: lastPart_def commands_FullPackage_def)
  have f3: "\<forall>imp \<in> set (Imports ex_lookalikeFile). Trim (ImportPath imp) \<noteq> valueobject_FullPackage"
    by (simp add: ex_lookalikeFile_def Trim_def valueobject_FullPackage_def)
  have r1: "snd (FindTypeDeclarations_inspectFn ex_moneyFile IsValueObjectTypeDeclaration
          (Some (TypeSpec ''Money'' (StructType (Some
             [Field [''amount''] (Ident ''int''),
              Field [''_''] (SelectorExpr (Ident ''vo'') ''ValueObject'')])))) {}) = {''money.Money''}"
    using C2_type_declaration_record_iff [of ex_moneyFile valueobject_FullPackage "''_''"
        "''ValueObject''" "''Money''"
        "Some [Field [''amount''] (Ident ''int''),
               Field [''_''] (SelectorExpr (Ident ''vo'') ''ValueObject'')]" "{}"] f1
    by (simp add: vo ex_voImport_def) (simp add: ex_moneyFile_def)
  have r2: "snd (FindTypeDeclarations_inspectFn ex_orderFile IsCommandTypeDeclaration
          (Some (TypeSpec ''PlaceOrder'' (StructType (Some
             [Field [''id''] (Ident ''int''),
              Field [''_''] (SelectorExpr (Ident ''commands'') ''Command'')])))) {}) =
       {''order.PlaceOrder''}"
    using C2_type_declaration_record_iff [of ex_orderFile commands_FullPackage "''_''"
        "''Command''" "''PlaceOrder''"
        "Some [Field [''id''] (Ident ''int''),
               Field [''_''] (SelectorExpr (Ident ''commands'') ''Command'')]" "{}"] f2 l2
    by (simp add: cmd) (simp add: ex_orderFile_def)
  have r3: "Inspect (fileNode ex_lookalikeFile)
         (FindTypeDeclarations_inspectFn ex_lookalikeFile IsValueObjectTypeDeclaration) {} = {}"
    using C2_type_declaration_record_iff [of ex_lookalikeFile valueobject_FullPackage "''_''"
        "''ValueObject''" "''Fake''" None "{}"] f3
    unfolding vo by blast
  show ?thesis
    using r1 r2 r3 by simp
qed

theorem C2_counterexample:
  "length (filter (\<lambda>f. isMarker f ''_'' (GetPackageAlias ex_moneyFile valueobject_FullPackage)
                          ''ValueObject'') ex_twoMarkers) = 2
   \<and> snd (FindTypeDeclarations_inspectFn ex_moneyFile IsValueObjectTypeDeclaration
            (Some (TypeSpec ''Twice'' (StructType (Some ex_twoMarkers)))) {}) = {''money.Twice''}"
proof -
  have vo_alias: "GetPackageAlias ex_moneyFile valueobject_FullPackage = ''vo''"
    by (simp add: GetPackageAlias_def ex_moneyFile_def ex_voImport_def Trim_def
        valueobject_FullPackage_def)
  have "IsValueObjectTypeDeclaration ex_moneyFile (Some ex_twoMarkers)"
    by (simp add: IsValueObjectTypeDeclaration_def IsSomeObjectTypeDeclaration_def vo_alias
        ex_twoMarkers_def valueobject_MarkerField_def valueobject_DeclaredName_def)
  then have "snd (FindTypeDeclarations_inspectFn ex_moneyFile IsValueObjectTypeDeclaration
            (Some (TypeSpec ''Twice'' (StructType (Some ex_twoMarkers)))) {}) = {''money.Twice''}"
    by (simp add: FindTypeDeclarations_inspectFn_def) (simp add: ex_moneyFile_def)
  then show ?thesis
    by (simp add: vo_alias ex_twoMarkers_def)
qed

text \<open>
  C3.  The scan of \<^verbatim>\<open>helpers.go\<close> resolves the type of a literal to \<^verbatim>\<open>package.Name\<close> before it
  looks the type up (\<^const>\<open>typeKeyOf\<close>).  The scan of the second helpers file
  (\<^const>\<open>typeNameOf\<close>) looks up the bare name.  On the tree with the marked \<^verbatim>\<open>money.Money\<close> and
  the unmarked \<^verbatim>\<open>wallet.Money\<close>, the bare-name scan reports \<^verbatim>\<open>Money{}\<close> of package \<^verbatim>\<open>wallet\<close>
  as a violation; the scan of \<^verbatim>\<open>helpers.go\<close> reports the three literals of package \<^verbatim>\<open>money\<close>
  only.
\<close>

theorem C3_bare_scan_confuses_same_named_types:
  "FindTypeDeclarations_bare ex_twoPackages ''root'' IsValueObjectTypeDeclaration = Inr {''Money''}
   \<and> FindConstructors_bare ex_twoPackages ''root'' {''Money''} =
       Inr [(''NewMoney:Money'', \<lparr>File = ''root/a/money.go'', StartLine = 5, EndLine = 7\<rparr>)]
   \<and> FindZeroValueInitializations_bare ex_twoPackages ''root'' ''ValueObject'' {''Money''}
         [(''NewMoney:Money'', \<lparr>File = ''root/a/money.go'', StartLine = 5, EndLine = 7\<rparr>)] =
       Inr {violation ''ValueObject'' ''Money'' ''root/a/money.go'' 9,
            violation ''ValueObject'' ''Money'' ''root/a/money.go'' 12,
            violation ''ValueObject'' ''Money'' ''root/a/money.go'' 13,
            violation ''ValueObject'' ''Money'' ''root/b/wallet.go'' 5}
   \<and> ValidateValueObjects ex_twoPackages ''root'' =
       (Some \<lparr>Types = {''money.Money''},
               Constructors =
                 [(constructorKey ''root/a/money.go'' ''NewMoney'' ''money.Money'',
                   \<lparr>File = ''root/a/money.go'', StartLine = 5, EndLine = 7\<rparr>)],
               Violations =
                 {violation ''ValueObject'' ''money.Money'' ''root/a/money.go'' 9,
                  violation ''ValueObject'' ''money.Money'' ''root/a/money.go'' 12,
                  violation ''ValueObject'' ''money.Money'' ''root/a/money.go'' 13}\<rparr>, None)"
  by code_simp

text \<open>
  C4.  The claim: when the root itself cannot be enumerated, validation returns a wrapped error
  and aborts, while failures on single files and entries are recovered and surface no error.

  What the code does: the function each scan hands to \<^verbatim>\<open>filepath.Walk\<close> returns nil whenever it is
  called with an error, the one for the root included, so the walk returns nil and the branch
  \<^verbatim>\<open>return nil, ge.Pin(err)\<close> is never taken.  A root on which \<^verbatim>\<open>os.Lstat\<close> fails, and a root
  directory that cannot be listed, both give the empty type set and so the result (nil, nil);
  and no tree at all makes a validator return an error.
\<close>

theorem C4_root_failure_gives_no_error:
  "ValidateValueObjects LstatFails rootPath = (None, None)
   \<and> ValidateValueObjects (Directory None) rootPath = (None, None)
   \<and> snd (ValidateValueObjects fs rootPath) = None
   \<and> snd (ValidateCommands fs rootPath) = None"
proof -
  have "ValidateValueObjects LstatFails rootPath = (None, None)"
    by (simp add: ValidateValueObjects_def FindTypeDeclarations_def Walk_def
        FindTypeDeclarations_walkFn_def)
  moreover have "ValidateValueObjects (Directory None) rootPath = (None, None)"
    by (simp add: ValidateValueObjects_def FindTypeDeclarations_def Walk_def
        FindTypeDeclarations_walkFn_def)
  ultimately show ?thesis
    using ValidateValueObjects_no_error [of fs rootPath] ValidateCommands_no_error [of fs rootPath]
    by simp
qed

text \<open>
  C5.  The claim as stated lets the first result be a qualified identifier.  The scan takes an
  \<^verbatim>\<open>*ast.Ident\<close> only: a function \<^verbatim>\<open>NewMoney\<close> whose result is \<^verbatim>\<open>money.Money\<close>, a selector that
  the violation scan resolves to the marked type \<^verbatim>\<open>money.Money\<close>, gives no record
  (the counterexample below).

  As amended: visiting a function declaration adds a record if and only if the name is not nil
  and starts with \<^verbatim>\<open>New\<close>, the result list is not nil and not empty, and the type of its first
  field is an unqualified identifier whose name, qualified with the package of the file, is in
  the type set.  The record is stored under \<^const>\<open>constructorKey\<close> with the path of the file and
  the lines of the start and the end of the declaration.  In every other case the map is left as
  it is, and the scan returns no error.
\<close>

theorem C5_constructor_record_iff:
  "(name = Some fname \<and> HasPrefix fname ''New''
      \<and> results = Some (Field names (Ident ident) # rest)
      \<and> PkgName file @ ''.'' @ ident \<in> typeDeclarations \<longrightarrow>
      FindConstructors_inspectFn path file typeDeclarations
        (Some (FuncDecl name params results body start end)) constructors =
      (True, AList.update (constructorKey path fname (PkgName file @ ''.'' @ ident))
               \<lparr>File = path, StartLine = start, EndLine = end\<rparr> constructors))
   \<and> (\<not> (\<exists>fname names ident rest. name = Some fname \<and> HasPrefix fname ''New''
            \<and> results = Some (Field names (Ident ident) # rest)
            \<and> PkgName file @ ''.'' @ ident \<in> typeDeclarations) \<longrightarrow>
      FindConstructors_inspectFn path file typeDeclarations
        (Some (FuncDecl name params results body start end)) constructors =
      (True, constructors))
   \<and> (\<exists>cs. FindConstructors fs rootPath typeDeclarations = Inr cs)"
proof -
  have "\<exists>cs. FindConstructors fs rootPath typeDeclarations = Inr cs"
    by (simp add: FindConstructors_Inr)
  moreover have "FindConstructors_inspectFn path file typeDeclarations
        (Some (FuncDecl name params results body start end)) constructors =
      (True, AList.update (constructorKey path fname (PkgName file @ ''.'' @ ident))
               \<lparr>File = path, StartLine = start, EndLine = end\<rparr> constructors)"
    if "name = Some fname" "HasPrefix fname ''New''"
      "results = Some (Field names (Ident ident) # rest)"
      "PkgName file @ ''.'' @ ident \<in> typeDeclarations"
    using that by (simp add: FindConstructors_inspectFn_def)
  moreover have "FindConstructors_inspectFn path file typeDeclarations
        (Some (FuncDecl name params results body start end)) constructors = (True, constructors)"
    if "\<not> (\<exists>fname names ident rest. name = Some fname \<and> HasPrefix fname ''New''
            \<and> results = Some (Field names (Ident ident) # rest)
            \<and> PkgName file @ ''.'' @ ident \<in> typeDeclarations)"
    using that
    by (auto simp: FindConstructors_inspectFn_def Let_def
        split: option.splits list.splits node.splits)
  ultimately show ?thesis
    by blast
qed

theorem C5_witness:
  "FindConstructors_inspectFn ''root/money.go'' ex_moneyFile {''money.Money''}
     (Some (FuncDecl (Some ''NewMoney'') [Field [''a''] (Ident ''int'')]
              (Some [Field [] (Ident ''Money'')]) [] 5 7)) [] = (True, ex_constructors)
   \<and> FindConstructors_inspectFn ''root/money.go'' ex_moneyFile {''money.Money''}
     (Some (FuncDecl (Some ''NewThing'') [] (Some [Field [] (Ident ''Thing'')]) [] 20 22)) [] =
     (True, [])"
proof -
  have p: "HasPrefix ''NewMoney'' ''New''"
    by (simp add: HasPrefix_def)
  have m: "PkgName ex_moneyFile @ ''.'' @ ''Money'' \<in> {''money.Money''}"
    by (simp add: ex_moneyFile_def)
  have no: "\<not> (\<exists>fname names ident rest. Some ''NewThing'' = Some fname \<and> HasPrefix fname ''New''
            \<and> Some [Field [] (Ident ''Thing'')] = Some (Field names (Ident ident) # rest)
            \<and> PkgName ex_moneyFile @ ''.'' @ ident \<in> {''money.Money''})"
    by (simp add: ex_moneyFile_def)
  have r1: "FindConstructors_inspectFn ''root/money.go'' ex_moneyFile {''money.Money''}
     (Some (FuncDecl (Some ''NewMoney'') [Field [''a''] (Ident ''int'')]
              (Some [Field [] (Ident ''Money'')]) [] 5 7)) [] = (True, ex_constructors)"
    using C5_constructor_record_iff [of "Some ''NewMoney''" "''NewMoney''"
        "Some [Field [] (Ident ''Money'')]" "[]" "''Money''" "[]" ex_moneyFile "{''money.Money''}"
        "''root/money.go''" "[Field [''a''] (Ident ''int'')]" "[]" 5 7 "[]"] p m
    by (simp add: ex_constructors_def)
  have r2: "FindConstructors_inspectFn ''root/money.go'' ex_moneyFile {''money.Money''}
     (Some (FuncDecl (Some ''NewThing'') [] (Some [Field [] (Ident ''Thing'')]) [] 20 22)) [] =
     (True, [])"
    using C5_constructor_record_iff [of "Some ''NewThing''" fname
        "Some [Field [] (Ident ''Thing'')]" names ident rest ex_moneyFile "{''money.Money''}"
        "''root/money.go''" "[]" "[]" 20 22 "[]"] no
    by blast
  show ?thesis
    using r1 r2 by simp
qed

theorem C5_counterexample:
  "HasPrefix ''NewMoney'' ''New''
   \<and> typeKeyOf ex_factoryFile (Some (SelectorExpr (Ident ''money'') ''Money'')) = Some ''money.Money''
   \<and> ''money.Money'' \<in> {''money.Money''}
   \<and> FindConstructors_inspectFn ''root/factory.go'' ex_factoryFile {''money.Money''}
        (Some (FuncDecl (Some ''NewMoney'') []
                 (Some [Field [] (SelectorExpr (Ident ''money'') ''Money'')]) [] 5 7)) [] =
      (True, [])"
  by (simp add: HasPrefix_def FindConstructors_inspectFn_def ex_factoryFile_def Trim_def
      lastPart_def)

text \<open>
  C6.  \<^const>\<open>FindConstructors\<close> keys a record by file, function name and type
  (\<open>constructorKey_inject\<close>).  The scan of the second helpers file keys it by function name and
  bare type name only:
  of the two functions \<^verbatim>\<open>NewMoney\<close> in \<^verbatim>\<open>a/money.go\<close> and \<^verbatim>\<open>b/money.go\<close> it keeps the record of the
  file walked last, where the scan of \<^verbatim>\<open>helpers.go\<close> keeps both; line 6 of \<^verbatim>\<open>a/money.go\<close> is then
  inside no known constructor.
\<close>

theorem C6_bare_key_overwrites_constructor:
  "FindConstructors_bare ex_twoCopies ''root'' {''Money''} =
       Inr [(''NewMoney:Money'', \<lparr>File = ''root/b/money.go'', StartLine = 5, EndLine = 7\<rparr>)]
   \<and> FindConstructors ex_twoCopies ''root'' {''money.Money''} =
       Inr [(constructorKey ''root/a/money.go'' ''NewMoney'' ''money.Money'',
             \<lparr>File = ''root/a/money.go'', StartLine = 5, EndLine = 7\<rparr>),
            (constructorKey ''root/b/money.go'' ''NewMoney'' ''money.Money'',
             \<lparr>File = ''root/b/money.go'', StartLine = 5, EndLine = 7\<rparr>)]
   \<and> IsInsideConstructor ''root/a/money.go'' 6 ''money.Money''
         [(constructorKey ''root/a/money.go'' ''NewMoney'' ''money.Money'',
             \<lparr>File = ''root/a/money.go'', StartLine = 5, EndLine = 7\<rparr>),
          (constructorKey ''root/b/money.go'' ''NewMoney'' ''money.Money'',
             \<lparr>File = ''root/b/money.go'', StartLine = 5, EndLine = 7\<rparr>)]
   \<and> \<not> IsInsideConstructor ''root/a/money.go'' 6 ''Money''
         [(''NewMoney:Money'', \<lparr>File = ''root/b/money.go'', StartLine = 5, EndLine = 7\<rparr>)]"
  by code_simp

text \<open>
  C7.  A visit whose composite literal has a non-empty element list leaves the violations as
  they are, whatever the elements are; and a visit that changes the violations found a literal
  with the empty element list.
\<close>

theorem C7_initialized_literal_never_flagged:
  "(compLitOf n = Some (CompositeLit ty elts line) \<and> elts \<noteq> [] \<longrightarrow>
      FindZeroValueInitializations_inspectFn path file markerName typeDeclarations constructors n
        violations = (True, violations))
   \<and> (snd (FindZeroValueInitializations_inspectFn path file markerName typeDeclarations
              constructors n violations) \<noteq> violations \<longrightarrow>
        (\<exists>ty line. compLitOf n = Some (CompositeLit ty [] line)))"
  by (auto simp: FindZeroValueInitializations_inspectFn_def
      split: option.splits node.splits if_splits)

theorem C7_witness:
  "compLitOf (Some (ReturnStmt [CompositeLit (Some (Ident ''Money''))
                                  [Other [Ident ''amount'', Other []]] 4])) =
     Some (CompositeLit (Some (Ident ''Money'')) [Other [Ident ''amount'', Other []]] 4)
   \<and> FindZeroValueInitializations_inspectFn ''root/money.go'' ex_moneyFile ''ValueObject''
        {''money.Money''} []
        (Some (ReturnStmt [CompositeLit (Some (Ident ''Money''))
                             [Other [Ident ''amount'', Other []]] 4])) {} = (True, {})
   \<and> snd (FindZeroValueInitializations_inspectFn ''root/money.go'' ex_moneyFile ''ValueObject''
        {''money.Money''} [] (Some (CompositeLit (Some (Ident ''Money'')) [] 9)) {}) \<noteq> {}
   \<and> (\<exists>ty line. compLitOf (Some (CompositeLit (Some (Ident ''Money'')) [] 9)) =
        Some (CompositeLit ty [] line))"
proof -
  have flagged: "snd (FindZeroValueInitializations_inspectFn ''root/money.go'' ex_moneyFile
      ''ValueObject'' {''money.Money''} [] (Some (CompositeLit (Some (Ident ''Money'')) [] 9)) {})
      \<noteq> {}"
    by (simp add: FindZeroValueInitializations_inspectFn_def ex_moneyFile_def)
  show ?thesis
    using C7_initialized_literal_never_flagged [of
        "Some (ReturnStmt [CompositeLit (Some (Ident ''Money''))
                             [Other [Ident ''amount'', Other []]] 4])"
        "Some (Ident ''Money'')" "[Other [Ident ''amount'', Other []]]" 4
        "''root/money.go''" ex_moneyFile "''ValueObject''" "{''money.Money''}" "[]" "{}"]
      C7_initialized_literal_never_flagged [of
        "Some (CompositeLit (Some (Ident ''Money'')) [] 9)" ty elts line
        "''root/money.go''" ex_moneyFile "''ValueObject''" "{''money.Money''}" "[]" "{}"]
      flagged
    by simp
qed

text \<open>
  C8.  For both validators: when \<^const>\<open>FindTypeDeclarations\<close> finds no marked type, the result is
  (nil, nil); this is so on the empty directory; and the report and the error are never both
  non-nil.  (The entity and aggregate packages declare their marker predicates only, and no
  validator.)
\<close>

theorem C8_no_marked_types_signal:
  "(FindTypeDeclarations fs rootPath IsValueObjectTypeDeclaration = Inr {}
      \<longrightarrow> ValidateValueObjects fs rootPath = (None, None))
   \<and> (FindTypeDeclarations fs rootPath IsCommandTypeDeclaration = Inr {}
      \<longrightarrow> ValidateCommands fs rootPath = (None, None))
   \<and> ValidateValueObjects (Directory (Some [])) rootPath = (None, None)
   \<and> ValidateCommands (Directory (Some [])) rootPath = (None, None)
   \<and> (fst (ValidateValueObjects fs rootPath) = None \<or> snd (ValidateValueObjects fs rootPath) = None)
   \<and> (fst (ValidateCommands fs rootPath) = None \<or> snd (ValidateCommands fs rootPath) = None)"
proof -
  have empty: "Walk (Directory (Some [])) rootPath (FindTypeDeclarations_walkFn isDecl) {} = (None, {})"
    for isDecl
    by (simp add: Walk_def FindTypeDeclarations_walkFn_def split: option.splits)
  have "ValidateValueObjects (Directory (Some [])) rootPath = (None, None)"
    by (simp add: ValidateValueObjects_def FindTypeDeclarations_def empty)
  moreover have "ValidateCommands (Directory (Some [])) rootPath = (None, None)"
    by (simp add: ValidateCommands_def FindTypeDeclarations_def empty)
  moreover have "FindTypeDeclarations fs rootPath IsValueObjectTypeDeclaration = Inr {}
      \<longrightarrow> ValidateValueObjects fs rootPath = (None, None)"
    by (simp add: ValidateValueObjects_def)
  moreover have "FindTypeDeclarations fs rootPath IsCommandTypeDeclaration = Inr {}
      \<longrightarrow> ValidateCommands fs rootPath = (None, None)"
    by (simp add: ValidateCommands_def)
  moreover have "fst (ValidateValueObjects fs rootPath) = None \<or> snd (ValidateValueObjects fs rootPath) = None"
    by (simp add: ValidateValueObjects_def split: sum.splits)
  moreover have "fst (ValidateCommands fs rootPath) = None \<or> snd (ValidateCommands fs rootPath) = None"
    by (simp add: ValidateCommands_def split: sum.splits)
  ultimately show ?thesis by blast
qed

theorem C8_witness:
  "FindTypeDeclarations ex_plainTree ''root'' IsValueObjectTypeDeclaration = Inr {}
   \<and> ValidateValueObjects ex_plainTree ''root'' = (None, None)
   \<and> FindTypeDeclarations ex_plainTree ''root'' IsCommandTypeDeclaration = Inr {}
   \<and> ValidateCommands ex_plainTree ''root'' = (None, None)"
proof -
  have h1: "FindTypeDeclarations ex_plainTree ''root'' IsValueObjectTypeDeclaration = Inr {}"
    by code_simp
  have h2: "FindTypeDeclarations ex_plainTree ''root'' IsCommandTypeDeclaration = Inr {}"
    by code_simp
  show ?thesis
    using C8_no_marked_types_signal [of ex_plainTree "''root''"] h1 h2 by simp
qed

text \<open>
  C9.  On a path that ends in \<^verbatim>\<open>_test.go\<close> the function each of the three scans hands to the
  walk returns at once: the type set, the constructor map and the violations stay as they are,
  whatever the file holds and whatever constructors are known.  So in the walk of a
  directory a test file among the names is passed over: each scan goes on with the other names
  from the state it had.
\<close>

theorem C9_test_files_skipped:
  assumes "HasSuffix path ''_test.go''"
  shows "FindTypeDeclarations_walkFn isTypeDeclaration path info err typeDeclarations =
           (None, typeDeclarations)
       \<and> FindConstructors_walkFn typeDeclarations path info err constructors =
           (None, constructors)
       \<and> FindZeroValueInitializations_walkFn markerName typeDeclarations constructors path info
           err violations = (None, violations)
       \<and> (path = Join dir name \<longrightarrow>
            walkNames dir ((name, RegularFile r) # rest)
              (FindTypeDeclarations_walkFn isTypeDeclaration) typeDeclarations =
            walkNames dir rest (FindTypeDeclarations_walkFn isTypeDeclaration) typeDeclarations
          \<and> walkNames dir ((name, RegularFile r) # rest)
              (FindConstructors_walkFn typeDeclarations) constructors =
            walkNames dir rest (FindConstructors_walkFn typeDeclarations) constructors
          \<and> walkNames dir ((name, RegularFile r) # rest)
              (FindZeroValueInitializations_walkFn markerName typeDeclarations constructors)
              violations =
            walkNames dir rest
              (FindZeroValueInitializations_walkFn markerName typeDeclarations constructors)
              violations)"
proof -
  have skip: "walkNames dir ((name, RegularFile r) # rest) fn s = walkNames dir rest fn s"
    if "fn (Join dir name) (RegularFile r) None s = (None, s)" for fn :: "'s WalkFunc" and s
    using that by simp
  have td: "FindTypeDeclarations_walkFn isTypeDeclaration path i e T = (None, T)" for i e T
    using assms by (simp add: FindTypeDeclarations_walkFn_def)
  have fc: "FindConstructors_walkFn typeDeclarations path i e C = (None, C)" for i e C
    using assms by (simp add: FindConstructors_walkFn_def)
  have zv: "FindZeroValueInitializations_walkFn markerName typeDeclarations constructors path i e V
      = (None, V)" for i e V
    using assms by (simp add: FindZeroValueInitializations_walkFn_def)
  have a: "walkNames dir ((name, RegularFile r) # rest)
              (FindTypeDeclarations_walkFn isTypeDeclaration) typeDeclarations =
            walkNames dir rest (FindTypeDeclarations_walkFn isTypeDeclaration) typeDeclarations"
    if "path = Join dir name"
    using td [of "RegularFile r" None typeDeclarations] that by (intro skip) simp
  have b: "walkNames dir ((name, RegularFile r) # rest)
              (FindConstructors_walkFn typeDeclarations) constructors =
            walkNames dir rest (FindConstructors_walkFn typeDeclarations) constructors"
    if "path = Join dir name"
    using fc [of "RegularFile r" None constructors] that by (intro skip) simp
  have c: "walkNames dir ((name, RegularFile r) # rest)
              (FindZeroValueInitializations_walkFn markerName typeDeclarations constructors)
              violations =
            walkNames dir rest
              (FindZeroValueInitializations_walkFn markerName typeDeclarations constructors)
              violations"
    if "path = Join dir name"
    using zv [of "RegularFile r" None violations] that by (intro skip) simp
  show ?thesis
    using td [of info err typeDeclarations] fc [of info err constructors]
      zv [of info err violations] a b c
    by blast
qed

theorem C9_witness:
  "HasSuffix ''root/money_test.go'' ''_test.go''
   \<and> FindZeroValueInitializations_walkFn ''ValueObject'' {''money.Money''} []
        ''root/money_test.go'' (RegularFile (Some ex_moneyFile)) None {} = (None, {})
   \<and> walkNames ''root'' [(''money_test.go'', RegularFile (Some ex_moneyFile))]
        (FindZeroValueInitializations_walkFn ''ValueObject'' {''money.Money''} []) {} = (None, {})
   \<and> snd (walkNames ''root'' [(''money.go'', RegularFile (Some ex_moneyFile))]
        (FindZeroValueInitializations_walkFn ''ValueObject'' {''money.Money''} []) {}) \<noteq> {}"
proof -
  have h: "HasSuffix ''root/money_test.go'' ''_test.go''"
    by (simp add: HasSuffix_def)
  have j: "''root/money_test.go'' = Join ''root'' ''money_test.go''"
    by (simp add: Join_def)
  have scanned: "snd (walkNames ''root'' [(''money.go'', RegularFile (Some ex_moneyFile))]
        (FindZeroValueInitializations_walkFn ''ValueObject'' {''money.Money''} []) {}) \<noteq> {}"
    by code_simp
  note t = C9_test_files_skipped [OF h, of IsValueObjectTypeDeclaration
        "RegularFile (Some ex_moneyFile)" None "{''money.Money''}" "[]" "''ValueObject''" "{}"
        "''root''" "''money_test.go''" "Some ex_moneyFile" "[]"]
  have r1: "FindZeroValueInitializations_walkFn ''ValueObject'' {''money.Money''} []
        ''root/money_test.go'' (RegularFile (Some ex_moneyFile)) None {} = (None, {})"
    using t by blast
  have r2: "walkNames ''root'' [(''money_test.go'', RegularFile (Some ex_moneyFile))]
        (FindZeroValueInitializations_walkFn ''ValueObject'' {''money.Money''} []) {} =
      walkNames ''root'' [] (FindZeroValueInitializations_walkFn ''ValueObject'' {''money.Money''} []) {}"
    using t j by blast
  show ?thesis
    using h scanned r1 r2 by simp
qed

text \<open>
  C10.  Let a file be walked (a \<^verbatim>\<open>.go\<close> path that is no test file).  Every composite literal
  with the empty element list among the nodes of the file, at whatever depth and below whatever
  kind of node, whose declared type resolves to a marked type and whose line is in no constructor
  of that type in the file, has its violation in the result.  A statement that hands the scan the
  same literal (the first composite literal among the right-hand sides of an assignment or among
  the results of a return) gives the same visit as the literal, and after both visits the
  violations hold the one record more.
  The type of a literal is its declared type expression; a literal whose type is elided has none.
\<close>

theorem C10_every_empty_literal_examined:
  assumes "lit \<in> subnodes (fileNode file)"
    and "lit = CompositeLit ty [] line"
    and "typeKeyOf file ty = Some typeKey"
    and "typeKey \<in> typeDeclarations"
    and "\<not> IsInsideConstructor path line typeKey constructors"
    and "Ext path = ''.go''"
    and "\<not> HasSuffix path ''_test.go''"
  shows "violation markerName typeKey path line \<in>
           snd (FindZeroValueInitializations_walkFn markerName typeDeclarations constructors path
                  (RegularFile (Some file)) None violations)
       \<and> (compLitOf (Some stmt) = Some lit \<longrightarrow>
            FindZeroValueInitializations_inspectFn path file markerName typeDeclarations
              constructors (Some stmt) violations =
            FindZeroValueInitializations_inspectFn path file markerName typeDeclarations
              constructors (Some lit) violations
          \<and> snd (FindZeroValueInitializations_inspectFn path file markerName typeDeclarations
                   constructors (Some lit)
                   (snd (FindZeroValueInitializations_inspectFn path file markerName
                           typeDeclarations constructors (Some stmt) violations))) =
            insert (violation markerName typeKey path line) violations)"
proof -
  let ?f = "FindZeroValueInitializations_inspectFn path file markerName typeDeclarations constructors"
  have hit: "snd (?f (Some lit) V) = insert (violation markerName typeKey path line) V" for V
    using assms(2-5) by (simp add: FindZeroValueInitializations_inspectFn_def)
  have "violation markerName typeKey path line \<in> Inspect (fileNode file) ?f violations"
  proof (rule Inspect_visits [where m = lit])
    show "fst (?f n s)" for n s
      by (rule zv_true)
    show "s \<subseteq> snd (?f n s)" for n s
      by (rule zv_mono)
    show "violation markerName typeKey path line \<in> snd (?f (Some lit) s)" for s
      by (simp add: hit)
    show "lit \<in> subnodes (fileNode file)"
      by (rule assms(1))
  qed
  then have scan: "violation markerName typeKey path line \<in>
      snd (FindZeroValueInitializations_walkFn markerName typeDeclarations constructors path
             (RegularFile (Some file)) None violations)"
    using assms(6,7) by (simp add: FindZeroValueInitializations_walkFn_def)
  have same: "?f (Some stmt) V = ?f (Some lit) V" if "compLitOf (Some stmt) = Some lit" for V
    using that assms(2) by (simp add: FindZeroValueInitializations_inspectFn_def)
  show ?thesis
    using scan same hit by simp
qed

theorem C10_witness:
  "CompositeLit (Some (Ident ''Money'')) [] 12 \<in> subnodes (fileNode ex_moneyFile)
   \<and> violation ''ValueObject'' ''money.Money'' ''root/money.go'' 12 \<in>
       snd (FindZeroValueInitializations_walkFn ''ValueObject'' {''money.Money''} ex_constructors
              ''root/money.go'' (RegularFile (Some ex_moneyFile)) None {})
   \<and> snd (FindZeroValueInitializations_inspectFn ''root/money.go'' ex_moneyFile ''ValueObject''
              {''money.Money''} ex_constructors (Some (CompositeLit (Some (Ident ''Money'')) [] 13))
              (snd (FindZeroValueInitializations_inspectFn ''root/money.go'' ex_moneyFile
                      ''ValueObject'' {''money.Money''} ex_constructors
                      (Some (ReturnStmt [CompositeLit (Some (Ident ''Money'')) [] 13])) {})))
       = {violation ''ValueObject'' ''money.Money'' ''root/money.go'' 13}"
proof -
  let ?use = "FuncDecl (Some ''use'') [] (Some [Field [] (Ident ''Money'')])
           [Other [Other [Other [Ident ''consume'', CompositeLit (Some (Ident ''Money'')) [] 12]],
                   ReturnStmt [CompositeLit (Some (Ident ''Money'')) [] 13]]] 11 14"
  let ?block = "Other [Other [Other [Ident ''consume'', CompositeLit (Some (Ident ''Money'')) [] 12]],
                   ReturnStmt [CompositeLit (Some (Ident ''Money'')) [] 13]]"
  let ?ret = "ReturnStmt [CompositeLit (Some (Ident ''Money'')) [] 13]"
  have n1: "?use \<in> subnodes (fileNode ex_moneyFile)"
    by (rule subnodes.child [OF subnodes.self]) (simp add: fileNode_def ex_moneyFile_def)
  have n2: "?block \<in> subnodes (fileNode ex_moneyFile)"
    by (rule subnodes.child [OF n1]) simp
  have n3: "Other [Other [Ident ''consume'', CompositeLit (Some (Ident ''Money'')) [] 12]]
      \<in> subnodes (fileNode ex_moneyFile)"
    by (rule subnodes.child [OF n2]) simp
  have n4: "Other [Ident ''consume'', CompositeLit (Some (Ident ''Money'')) [] 12]
      \<in> subnodes (fileNode ex_moneyFile)"
    by (rule subnodes.child [OF n3]) simp
  have lit12: "CompositeLit (Some (Ident ''Money'')) [] 12 \<in> subnodes (fileNode ex_moneyFile)"
    by (rule subnodes.child [OF n4]) simp
  have n5: "?ret \<in> subnodes (fileNode ex_moneyFile)"
    by (rule subnodes.child [OF n2]) simp
  have lit13: "CompositeLit (Some (Ident ''Money'')) [] 13 \<in> subnodes (fileNode ex_moneyFile)"
    by (rule subnodes.child [OF n5]) simp
  have key: "typeKeyOf ex_moneyFile (Some (Ident ''Money'')) = Some ''money.Money''"
    by (simp add: ex_moneyFile_def)
  have mem: "''money.Money'' \<in> {''money.Money''}"
    by simp
  have out12: "\<not> IsInsideConstructor ''root/money.go'' 12 ''money.Money'' ex_constructors"
    by (simp add: ex_constructors_def)
  have out13: "\<not> IsInsideConstructor ''root/money.go'' 13 ''money.Money'' ex_constructors"
    by (simp add: ex_constructors_def)
  have ext: "Ext ''root/money.go'' = ''.go''"
    by (simp add: Ext_def)
  have notest: "\<not> HasSuffix ''root/money.go'' ''_test.go''"
    by (simp add: HasSuffix_def)
  have via: "compLitOf (Some ?ret) = Some (CompositeLit (Some (Ident ''Money'')) [] 13)"
    by simp
  have r1: "violation ''ValueObject'' ''money.Money'' ''root/money.go'' 12 \<in>
       snd (FindZeroValueInitializations_walkFn ''ValueObject'' {''money.Money''} ex_constructors
              ''root/money.go'' (RegularFile (Some ex_moneyFile)) None {})"
    using C10_every_empty_literal_examined [OF lit12 refl key mem out12 ext notest,
        of "''ValueObject''" "{}" ?ret]
    by (rule conjunct1)
  have r2: "snd (FindZeroValueInitializations_inspectFn ''root/money.go'' ex_moneyFile ''ValueObject''
              {''money.Money''} ex_constructors (Some (CompositeLit (Some (Ident ''Money'')) [] 13))
              (snd (FindZeroValueInitializations_inspectFn ''root/money.go'' ex_moneyFile
                      ''ValueObject'' {''money.Money''} ex_constructors (Some ?ret) {})))
       = {violation ''ValueObject'' ''money.Money'' ''root/money.go'' 13}"
    using C10_every_empty_literal_examined [OF lit13 refl key mem out13 ext notest,
        of "''ValueObject''" "{}" ?ret] via
    by blast
  show ?thesis
    using lit12 r1 r2 by blast
qed

end
